theory Spec2Isabelle
  imports Main
begin

section \<open>JavaScript objects used as dictionaries\<close>

text \<open>
  \<^verbatim>\<open>RoomManager.rooms\<close> and \<^verbatim>\<open>room.players\<close> are plain JavaScript objects used as
  dictionaries with string keys. An object is modelled by the list of its own properties in
  the order in which \<^verbatim>\<open>Object.keys\<close> and \<^verbatim>\<open>Object.values\<close> enumerate them: keys
  that are array indices (canonical decimal numerals below \<open>2^32 - 1\<close>) first, in ascending
  numeric order, then all other keys in the order of their creation. Assigning to a key that
  is already present keeps its position.
\<close>

type_synonym 'v obj = "(string \<times> 'v) list"

definition is_digit :: "char \<Rightarrow> bool" where
  "is_digit c = (48 \<le> (of_char c :: nat) \<and> (of_char c :: nat) \<le> 57)"

definition dec_value :: "string \<Rightarrow> nat" where
  "dec_value k = fold (\<lambda>c n. 10 * n + ((of_char c :: nat) - 48)) k 0"

definition array_index :: "string \<Rightarrow> nat option" where
  "array_index k =
     (if k \<noteq> [] \<and> list_all is_digit k \<and> (k = ''0'' \<or> hd k \<noteq> CHR ''0'')
         \<and> dec_value k < 4294967295
      then Some (dec_value k) else None)"

definition obj_keys :: "'v obj \<Rightarrow> string list" where
  "obj_keys ob = map fst ob"

definition obj_values :: "'v obj \<Rightarrow> 'v list" where
  "obj_values ob = map snd ob"

fun obj_replace :: "'v obj \<Rightarrow> string \<Rightarrow> 'v \<Rightarrow> 'v obj" where
  "obj_replace [] k v = []"
| "obj_replace ((k', v') # rest) k v =
     (if k' = k then (k, v) # rest else (k', v') # obj_replace rest k v)"

fun obj_insert_index :: "'v obj \<Rightarrow> nat \<Rightarrow> string \<Rightarrow> 'v \<Rightarrow> 'v obj" where
  "obj_insert_index [] n k v = [(k, v)]"
| "obj_insert_index ((k', v') # rest) n k v =
     (case array_index k' of
        Some m \<Rightarrow> if m < n then (k', v') # obj_insert_index rest n k v
                  else (k, v) # (k', v') # rest
      | None \<Rightarrow> (k, v) # (k', v') # rest)"

text \<open>The assignment \<^verbatim>\<open>ob[k] = v\<close>.\<close>

definition obj_set :: "'v obj \<Rightarrow> string \<Rightarrow> 'v \<Rightarrow> 'v obj" where
  "obj_set ob k v =
     (case map_of ob k of
        Some _ \<Rightarrow> obj_replace ob k v
      | None \<Rightarrow> (case array_index k of
                   Some n \<Rightarrow> obj_insert_index ob n k v
                 | None \<Rightarrow> ob @ [(k, v)]))"

text \<open>The statement \<^verbatim>\<open>delete ob[k]\<close>.\<close>

definition obj_delete :: "'v obj \<Rightarrow> string \<Rightarrow> 'v obj" where
  "obj_delete ob k = filter (\<lambda>kv. fst kv \<noteq> k) ob"

text \<open>
  The registry \<^verbatim>\<open>this.rooms = {}\<close> inherits from \<^verbatim>\<open>Object.prototype\<close>, and room ids
  reach \<^verbatim>\<open>joinRoom\<close> from clients unchecked. Reading \<^verbatim>\<open>this.rooms[roomId]\<close> therefore
  has three outcomes: an own property (a room), a member inherited from
  \<^verbatim>\<open>Object.prototype\<close> (a truthy value that is not a room and has no \<^verbatim>\<open>gameState\<close>,
  \<^verbatim>\<open>players\<close> or \<^verbatim>\<open>settings\<close>), or \<^verbatim>\<open>undefined\<close>.
\<close>

datatype 'v lookup = Undefined | Inherited | Own 'v

definition prototype_keys :: "string list" where
  "prototype_keys =
     [''constructor'', ''__defineGetter__'', ''__defineSetter__'', ''hasOwnProperty'',
      ''__lookupGetter__'', ''__lookupSetter__'', ''isPrototypeOf'', ''propertyIsEnumerable'',
      ''toString'', ''valueOf'', ''__proto__'', ''toLocaleString'']"

definition obj_get :: "'v obj \<Rightarrow> string \<Rightarrow> 'v lookup" where
  "obj_get ob k =
     (case map_of ob k of
        Some v \<Rightarrow> Own v
      | None \<Rightarrow> if k \<in> set prototype_keys then Inherited else Undefined)"

section \<open>Data model of \<^verbatim>\<open>src/server/RoomManager.js\<close>\<close>

text \<open>
  Player identities are the transport's socket ids (\<^verbatim>\<open>socket.id\<close>), generated by the
  server side of the transport and taken not to name a member of \<^verbatim>\<open>Object.prototype\<close>:
  \<^verbatim>\<open>room.players[playerId]\<close> is modelled as a lookup among the own properties of
  \<^verbatim>\<open>room.players\<close>. Room codes are upper-cased by \<^verbatim>\<open>generateRoomId\<close>, so no
  assignment \<^verbatim>\<open>this.rooms[roomId] = ...\<close> has the key \<^verbatim>\<open>__proto__\<close>. Numbers in payloads
  are integers, and team labels and map names are strings. Field names follow the source;
  \<open>id\<close>, \<open>name\<close> and \<open>map\<close> carry a suffix.
\<close>

record player =
  id_p :: string
  team :: string
  isBot :: bool
  isHost :: bool
  name_p :: "string option"

record room_settings =
  maxPlayers :: int
  teamSize :: int
  map_s :: string

datatype game_state = LOBBY | PLAYING

record room =
  id_r :: string
  hostId :: string
  players :: "player obj"
  gameState :: game_state
  settings :: room_settings
  createdAt :: nat

text \<open>
  The settings payload \<^verbatim>\<open>{teamSize?, map?}\<close> sent by a client: \<open>None\<close> is a missing
  field. An absent argument of \<^verbatim>\<open>createRoom\<close> is the payload with both fields missing
  (the default parameter \<^verbatim>\<open>settings = {}\<close>). The value \<^verbatim>\<open>null\<close>, on which
  \<^verbatim>\<open>settings.teamSize\<close> throws a \<^verbatim>\<open>TypeError\<close> in \<^verbatim>\<open>createRoom\<close> and in
  \<^verbatim>\<open>updateSettings\<close> (as \<^verbatim>\<open>undefined\<close> does in \<^verbatim>\<open>updateSettings\<close>), is not a
  settings payload: \<open>createRoom\<close> and \<open>updateSettings\<close> below are the operations called
  with a settings object.
\<close>

record settings_payload =
  teamSize_in :: "int option"
  map_in :: "string option"

text \<open>
  The only exception the operations can raise is the \<^verbatim>\<open>TypeError\<close> of reading a
  property of \<^verbatim>\<open>undefined\<close>: \<^verbatim>\<open>room.players\<close> and \<^verbatim>\<open>room.settings\<close> are
  \<^verbatim>\<open>undefined\<close> when \<^verbatim>\<open>room\<close> is \<^verbatim>\<open>undefined\<close> itself or an inherited member.
\<close>

datatype js_error = TypeError

type_synonym rooms = "room obj"

section \<open>Operations of \<^verbatim>\<open>RoomManager\<close>\<close>

text \<open>
  \<^verbatim>\<open>Math.random().toString(36).substring(2, 6).toUpperCase()\<close>: the argument \<open>rnd\<close> is
  the base-36 rendering of the random number, the outcome of the random generator.
\<close>

definition toUpperCase_char :: "char \<Rightarrow> char" where
  "toUpperCase_char c =
     (case map_of (zip ''abcdefghijklmnopqrstuvwxyz'' ''ABCDEFGHIJKLMNOPQRSTUVWXYZ'') c of
        Some u \<Rightarrow> u
      | None \<Rightarrow> c)"

definition generateRoomId :: "string \<Rightarrow> string" where
  "generateRoomId rnd = map toUpperCase_char (take 4 (drop 2 rnd))"

text \<open>\<^verbatim>\<open>x || d\<close> on an optional number and on an optional string: \<open>0\<close> and \<open>""\<close> are falsy.\<close>

definition or_int :: "int option \<Rightarrow> int \<Rightarrow> int" where
  "or_int x d = (case x of None \<Rightarrow> d | Some n \<Rightarrow> if n = 0 then d else n)"

definition or_string :: "string option \<Rightarrow> string \<Rightarrow> string" where
  "or_string x d = (case x of None \<Rightarrow> d | Some s \<Rightarrow> if s = [] then d else s)"

text \<open>
  \<^verbatim>\<open>parseInt\<close> of an optional integer: a missing field gives \<^verbatim>\<open>NaN\<close>, modelled by
  \<open>None\<close>, and an integer (of a magnitude that JavaScript prints in plain decimal
  notation, below \<open>10^21\<close>) is returned as it is.
\<close>

definition parseInt :: "int option \<Rightarrow> int option" where
  "parseInt x = x"

definition count_team :: "string \<Rightarrow> player obj \<Rightarrow> nat" where
  "count_team t ps = length (filter (\<lambda>p. team p = t) (obj_values ps))"

text \<open>
  The body of \<^verbatim>\<open>addPlayerToRoom\<close> once \<^verbatim>\<open>this.rooms[roomId]\<close> has been read: the room
  object is updated in place.
\<close>

definition addPlayer :: "room \<Rightarrow> string \<Rightarrow> bool \<Rightarrow> room" where
  "addPlayer room playerId isHost' =
     (let blueCount = count_team ''BLUE'' (players room);
          redCount = count_team ''RED'' (players room);
          team' = (if blueCount \<le> redCount then ''BLUE'' else ''RED'')
      in room\<lparr>players := obj_set (players room) playerId
               \<lparr>id_p = playerId, team = team', isBot = False, isHost = isHost',
                name_p = None\<rparr>\<rparr>)"

definition addPlayerToRoom :: "rooms \<Rightarrow> string \<Rightarrow> string \<Rightarrow> bool \<Rightarrow> js_error + rooms" where
  "addPlayerToRoom rs roomId playerId isHost' =
     (case obj_get rs roomId of
        Own room \<Rightarrow> Inr (obj_set rs roomId (addPlayer room playerId isHost'))
      | _ \<Rightarrow> Inl TypeError)"

definition createRoom ::
  "rooms \<Rightarrow> string \<Rightarrow> nat \<Rightarrow> string \<Rightarrow> settings_payload \<Rightarrow> js_error + (rooms \<times> string)" where
  "createRoom rs rnd now hostId' payload =
     (let roomId = generateRoomId rnd;
          teamSize' = or_int (teamSize_in payload) 1;
          rs1 = obj_set rs roomId
            \<lparr>id_r = roomId, hostId = hostId', players = [], gameState = LOBBY,
             settings = \<lparr>maxPlayers = teamSize' * 2, teamSize = teamSize',
                         map_s = or_string (map_in payload) ''orbital''\<rparr>,
             createdAt = now\<rparr>
      in case addPlayerToRoom rs1 roomId hostId' True of
           Inl e \<Rightarrow> Inl e
         | Inr rs2 \<Rightarrow> Inr (rs2, roomId))"

text \<open>
  \<^verbatim>\<open>rebalanceTeams\<close>: the arrays \<^verbatim>\<open>blue\<close> and \<^verbatim>\<open>red\<close> hold the player objects of the
  room, represented by their keys; \<^verbatim>\<open>moved.team = ...\<close> writes through to
  \<^verbatim>\<open>room.players\<close>.
\<close>

definition set_team :: "player obj \<Rightarrow> string \<Rightarrow> string \<Rightarrow> player obj" where
  "set_team ps k t = map (\<lambda>(k', p). if k' = k then (k', p\<lparr>team := t\<rparr>) else (k', p)) ps"

function rebalance_blue ::
  "int \<Rightarrow> string list \<Rightarrow> string list \<Rightarrow> player obj \<Rightarrow> string list \<times> string list \<times> player obj" where
  "rebalance_blue ts blue red ps =
     (if int (length blue) > ts \<and> int (length red) < ts
      then rebalance_blue ts (butlast blue) (red @ [last blue]) (set_team ps (last blue) ''RED'')
      else (blue, red, ps))"
  by pat_completeness auto
termination
  by (relation "measure (\<lambda>(ts, blue, red, ps). length blue)") auto

declare rebalance_blue.simps [simp del]

function rebalance_red ::
  "int \<Rightarrow> string list \<Rightarrow> string list \<Rightarrow> player obj \<Rightarrow> string list \<times> string list \<times> player obj" where
  "rebalance_red ts blue red ps =
     (if int (length red) > ts \<and> int (length blue) < ts
      then rebalance_red ts (blue @ [last red]) (butlast red) (set_team ps (last red) ''BLUE'')
      else (blue, red, ps))"
  by pat_completeness auto
termination
  by (relation "measure (\<lambda>(ts, blue, red, ps). length red)") auto

declare rebalance_red.simps [simp del]

definition team_keys :: "string \<Rightarrow> player obj \<Rightarrow> string list" where
  "team_keys t ps = map fst (filter (\<lambda>kv. team (snd kv) = t) ps)"

definition rebalanceTeams :: "room \<Rightarrow> room" where
  "rebalanceTeams room =
     (let teamSize' = teamSize (settings room);
          blue = team_keys ''BLUE'' (players room);
          red = team_keys ''RED'' (players room);
          (blue1, red1, ps1) = rebalance_blue teamSize' blue red (players room);
          (blue2, red2, ps2) = rebalance_red teamSize' blue1 red1 ps1
      in room\<lparr>players := ps2\<rparr>)"

definition updateSettings ::
  "rooms \<Rightarrow> string \<Rightarrow> settings_payload \<Rightarrow> js_error + (rooms \<times> room option)" where
  "updateSettings rs roomId payload =
     (case obj_get rs roomId of
        Undefined \<Rightarrow> Inr (rs, None)
      | Inherited \<Rightarrow> Inl TypeError
      | Own room \<Rightarrow>
          (let newTeamSize = or_int (parseInt (teamSize_in payload)) (teamSize (settings room));
               room1 = room\<lparr>settings := (settings room)
                          \<lparr>map_s := or_string (map_in payload) (map_s (settings room)),
                           teamSize := newTeamSize,
                           maxPlayers := newTeamSize * 2\<rparr>\<rparr>;
               room2 = rebalanceTeams room1
           in Inr (obj_set rs roomId room2, Some room2)))"

definition joinRoom ::
  "rooms \<Rightarrow> string \<Rightarrow> string \<Rightarrow> js_error + (rooms \<times> (string + room))" where
  "joinRoom rs roomId playerId =
     (case obj_get rs roomId of
        Undefined \<Rightarrow> Inr (rs, Inl ''Room not found'')
      | Inherited \<Rightarrow> Inr (rs, Inl ''Game already started'')
      | Own room \<Rightarrow>
          if gameState room \<noteq> LOBBY then Inr (rs, Inl ''Game already started'')
          else if int (length (obj_keys (players room))) \<ge> maxPlayers (settings room)
          then Inr (rs, Inl ''Room full'')
          else (case addPlayerToRoom rs roomId playerId False of
                  Inl e \<Rightarrow> Inl e
                | Inr rs' \<Rightarrow> Inr (rs', Inr (addPlayer room playerId False))))"

definition switchTeam ::
  "rooms \<Rightarrow> string \<Rightarrow> string \<Rightarrow> string option \<Rightarrow> js_error + (rooms \<times> (string + player) option)" where
  "switchTeam rs roomId playerId targetTeam =
     (case obj_get rs roomId of
        Undefined \<Rightarrow> Inr (rs, None)
      | Inherited \<Rightarrow> Inl TypeError
      | Own room \<Rightarrow>
          (case map_of (players room) playerId of
             None \<Rightarrow> Inr (rs, None)
           | Some player \<Rightarrow>
               (let newTeam = or_string targetTeam
                      (if team player = ''BLUE'' then ''RED'' else ''BLUE'')
                in if team player = newTeam then Inr (rs, Some (Inr player))
                   else if int (count_team newTeam (players room)) \<ge> teamSize (settings room)
                   then Inr (rs, Some (Inl ''Team full''))
                   else (let player' = player\<lparr>team := newTeam\<rparr>
                         in Inr (obj_set rs roomId
                                   (room\<lparr>players := obj_set (players room) playerId player'\<rparr>),
                                 Some (Inr player'))))))"

definition set_isHost :: "player obj \<Rightarrow> string \<Rightarrow> bool \<Rightarrow> player obj" where
  "set_isHost ps k b = map (\<lambda>(k', p). if k' = k then (k', p\<lparr>isHost := b\<rparr>) else (k', p)) ps"

definition leaveRoom ::
  "rooms \<Rightarrow> string \<Rightarrow> string \<Rightarrow> js_error + (rooms \<times> string option)" where
  "leaveRoom rs roomId playerId =
     (case obj_get rs roomId of
        Undefined \<Rightarrow> Inr (rs, None)
      | Inherited \<Rightarrow> Inl TypeError
      | Own room \<Rightarrow>
          (let ps = obj_delete (players room) playerId
           in case obj_keys ps of
                [] \<Rightarrow> Inr (obj_delete rs roomId, None)
              | nextPlayerId # _ \<Rightarrow>
                  if hostId room = playerId
                  then Inr (obj_set rs roomId
                              (room\<lparr>hostId := nextPlayerId,
                                    players := set_isHost ps nextPlayerId True\<rparr>),
                            Some nextPlayerId)
                  else Inr (obj_set rs roomId (room\<lparr>players := ps\<rparr>), None)))"

definition getRoom :: "rooms \<Rightarrow> string \<Rightarrow> room lookup" where
  "getRoom rs roomId = obj_get rs roomId"

text \<open>The test \<^verbatim>\<open>r.players[playerId]\<close> of \<^verbatim>\<open>getPlayerRoom\<close>: player objects are truthy.\<close>

definition has_player :: "room \<Rightarrow> string \<Rightarrow> bool" where
  "has_player r playerId = (map_of (players r) playerId \<noteq> None)"

definition getPlayerRoom :: "rooms \<Rightarrow> string \<Rightarrow> room option" where
  "getPlayerRoom rs playerId = find (\<lambda>r. has_player r playerId) (obj_values rs)"

section \<open>Host-gated handlers of \<^verbatim>\<open>src/server/server.js\<close>\<close>

text \<open>
  A handler takes the registry, the sender's \<^verbatim>\<open>socket.id\<close> and the payload, and
  returns the registry together with the list of messages it emits.
  \<^verbatim>\<open>io.to(room).emit\<close> reaches the whole room, \<^verbatim>\<open>socket.to(room).emit\<close> the room
  without the sender. The payloads of \<^verbatim>\<open>round_state\<close> and \<^verbatim>\<open>player_hit\<close> are relayed
  untouched; their type is the parameter \<open>'d\<close>.
\<close>

datatype target = ToRoom string | ToRoomExceptSender string string

datatype 'd message = Room_settings_updated room_settings | Round_state 'd | Player_hit 'd

definition on_update_room_settings ::
  "rooms \<Rightarrow> string \<Rightarrow> settings_payload \<Rightarrow> js_error + (rooms \<times> (target \<times> 'd message) list)" where
  "on_update_room_settings rs socket_id payload =
     (case getPlayerRoom rs socket_id of
        None \<Rightarrow> Inr (rs, [])
      | Some room \<Rightarrow>
          if hostId room \<noteq> socket_id then Inr (rs, [])
          else (case updateSettings rs (id_r room) payload of
                  Inl e \<Rightarrow> Inl e
                | Inr (rs', None) \<Rightarrow> Inr (rs', [])
                | Inr (rs', Some updatedRoom) \<Rightarrow>
                    Inr (rs', [(ToRoom (id_r room),
                                Room_settings_updated (settings updatedRoom))])))"

definition on_round_state ::
  "rooms \<Rightarrow> string \<Rightarrow> 'd \<Rightarrow> rooms \<times> (target \<times> 'd message) list" where
  "on_round_state rs socket_id data =
     (case getPlayerRoom rs socket_id of
        None \<Rightarrow> (rs, [])
      | Some room \<Rightarrow>
          if hostId room = socket_id
          then (rs, [(ToRoomExceptSender (id_r room) socket_id, Round_state data)])
          else (rs, []))"

definition on_player_hit ::
  "rooms \<Rightarrow> string \<Rightarrow> 'd \<Rightarrow> rooms \<times> (target \<times> 'd message) list" where
  "on_player_hit rs socket_id data =
     (case getPlayerRoom rs socket_id of
        None \<Rightarrow> (rs, [])
      | Some room \<Rightarrow>
          if hostId room = socket_id
          then (rs, [(ToRoomExceptSender (id_r room) socket_id, Player_hit data)])
          else (rs, []))"

section \<open>Example states\<close>

text \<open>The room that \<^verbatim>\<open>createRoom\<close> makes for \<open>P1\<close> with an empty payload, code \<open>AB12\<close>.\<close>

definition room_of_P1 :: room where
  "room_of_P1 =
     \<lparr>id_r = ''AB12'', hostId = ''P1'',
      players = [(''P1'', \<lparr>id_p = ''P1'', team = ''BLUE'', isBot = False,
                           isHost = True, name_p = None\<rparr>)],
      gameState = LOBBY,
      settings = \<lparr>maxPlayers = 2, teamSize = 1, map_s = ''orbital''\<rparr>,
      createdAt = 7\<rparr>"

text \<open>The same room after \<open>P1\<close>, its host, has joined it again.\<close>

definition room_of_P1_rejoined :: room where
  "room_of_P1_rejoined =
     room_of_P1\<lparr>players :=
       [(''P1'', \<lparr>id_p = ''P1'', team = ''RED'', isBot = False, isHost = False,
                  name_p = None\<rparr>)]\<rparr>"

text \<open>The room of \<open>P1\<close> after \<open>P2\<close> has joined it.\<close>

definition room_of_P1_P2 :: room where
  "room_of_P1_P2 =
     room_of_P1\<lparr>players :=
       [(''P1'', \<lparr>id_p = ''P1'', team = ''BLUE'', isBot = False, isHost = True,
                  name_p = None\<rparr>),
        (''P2'', \<lparr>id_p = ''P2'', team = ''RED'', isBot = False, isHost = False,
                  name_p = None\<rparr>)]\<rparr>"

text \<open>
  A lobby with team size \<open>2\<close> that \<open>P1\<close> created and \<open>P2\<close> and \<open>P3\<close> joined, in this
  order.
\<close>

definition lobby_of_three :: room where
  "lobby_of_three =
     \<lparr>id_r = ''AB12'', hostId = ''P1'',
      players =
        [(''P1'', \<lparr>id_p = ''P1'', team = ''BLUE'', isBot = False, isHost = True,
                   name_p = None\<rparr>),
         (''P2'', \<lparr>id_p = ''P2'', team = ''RED'', isBot = False, isHost = False,
                   name_p = None\<rparr>),
         (''P3'', \<lparr>id_p = ''P3'', team = ''BLUE'', isBot = False, isHost = False,
                   name_p = None\<rparr>)],
      gameState = LOBBY,
      settings = \<lparr>maxPlayers = 4, teamSize = 2, map_s = ''orbital''\<rparr>,
      createdAt = 7\<rparr>"

text \<open>
  A lobby with team size \<open>3\<close>: \<open>P1\<close> created it, \<open>P2\<close>, \<open>P3\<close> and \<open>P4\<close> joined, and \<open>P2\<close>
  switched to BLUE.
\<close>

definition lobby_blue_heavy :: room where
  "lobby_blue_heavy =
     \<lparr>id_r = ''AB12'', hostId = ''P1'',
      players =
        [(''P1'', \<lparr>id_p = ''P1'', team = ''BLUE'', isBot = False, isHost = True,
                   name_p = None\<rparr>),
         (''P2'', \<lparr>id_p = ''P2'', team = ''BLUE'', isBot = False, isHost = False,
                   name_p = None\<rparr>),
         (''P3'', \<lparr>id_p = ''P3'', team = ''BLUE'', isBot = False, isHost = False,
                   name_p = None\<rparr>),
         (''P4'', \<lparr>id_p = ''P4'', team = ''RED'', isBot = False, isHost = False,
                   name_p = None\<rparr>)],
      gameState = LOBBY,
      settings = \<lparr>maxPlayers = 6, teamSize = 3, map_s = ''orbital''\<rparr>,
      createdAt = 7\<rparr>"

text \<open>A second room, code \<open>ZZ9Q\<close>, created by \<open>P2\<close>, before and after \<open>P1\<close> joins it.\<close>

definition room_ZZ9Q_of_P2 :: room where
  "room_ZZ9Q_of_P2 =
     \<lparr>id_r = ''ZZ9Q'', hostId = ''P2'',
      players = [(''P2'', \<lparr>id_p = ''P2'', team = ''BLUE'', isBot = False,
                           isHost = True, name_p = None\<rparr>)],
      gameState = LOBBY,
      settings = \<lparr>maxPlayers = 2, teamSize = 1, map_s = ''orbital''\<rparr>,
      createdAt = 8\<rparr>"

definition room_ZZ9Q_of_P2_P1 :: room where
  "room_ZZ9Q_of_P2_P1 =
     room_ZZ9Q_of_P2\<lparr>players :=
       [(''P2'', \<lparr>id_p = ''P2'', team = ''BLUE'', isBot = False, isHost = True,
                  name_p = None\<rparr>),
        (''P1'', \<lparr>id_p = ''P1'', team = ''RED'', isBot = False, isHost = False,
                  name_p = None\<rparr>)]\<rparr>"

section \<open>Notions used to state the properties\<close>

text \<open>
  Two player tables are equal up to team assignment when they agree after the team of every
  player has been erased: same keys in the same order, same \<open>id\<close>, \<open>isBot\<close>, \<open>isHost\<close>
  and \<open>name\<close> for each.
\<close>

definition forget_team :: "player obj \<Rightarrow> player obj" where
  "forget_team ps = map (\<lambda>(k, p). (k, p\<lparr>team := []\<rparr>)) ps"



section \<open>Sequences of operations\<close>

text \<open>
  The rooms of the registry that have the player among their members, in iteration order;
  \<^verbatim>\<open>getPlayerRoom\<close> returns the first of them.
\<close>

definition rooms_of :: "rooms \<Rightarrow> string \<Rightarrow> room list" where
  "rooms_of rs playerId = filter (\<lambda>r. has_player r playerId) (obj_values rs)"

text \<open>
  A call of one of the five mutating operations of \<^verbatim>\<open>RoomManager\<close> with its arguments;
  for \<^verbatim>\<open>createRoom\<close> also the random string and the clock reading it consumes.
\<close>

datatype op =
    CreateRoom string nat string settings_payload
  | JoinRoom string string
  | LeaveRoom string string
  | SwitchTeam string string "string option"
  | UpdateSettings string settings_payload

definition apply_op :: "rooms \<Rightarrow> op \<Rightarrow> js_error + rooms" where
  "apply_op rs c =
     (case c of
        CreateRoom rnd now h payload \<Rightarrow>
          (case createRoom rs rnd now h payload of Inl e \<Rightarrow> Inl e | Inr (rs', _) \<Rightarrow> Inr rs')
      | JoinRoom roomId playerId \<Rightarrow>
          (case joinRoom rs roomId playerId of Inl e \<Rightarrow> Inl e | Inr (rs', _) \<Rightarrow> Inr rs')
      | LeaveRoom roomId playerId \<Rightarrow>
          (case leaveRoom rs roomId playerId of Inl e \<Rightarrow> Inl e | Inr (rs', _) \<Rightarrow> Inr rs')
      | SwitchTeam roomId playerId targetTeam \<Rightarrow>
          (case switchTeam rs roomId playerId targetTeam of
             Inl e \<Rightarrow> Inl e | Inr (rs', _) \<Rightarrow> Inr rs')
      | UpdateSettings roomId payload \<Rightarrow>
          (case updateSettings rs roomId payload of Inl e \<Rightarrow> Inl e | Inr (rs', _) \<Rightarrow> Inr rs'))"

text \<open>
  The discipline under which a player is in one room at a time: a player creates or joins a
  room only while \<^verbatim>\<open>getPlayerRoom\<close> finds no room for it. The other operations are not
  restricted.
\<close>

definition op_allowed :: "rooms \<Rightarrow> op \<Rightarrow> bool" where
  "op_allowed rs c =
     (case c of
        CreateRoom rnd now h payload \<Rightarrow> getPlayerRoom rs h = None
      | JoinRoom roomId playerId \<Rightarrow> getPlayerRoom rs playerId = None
      | _ \<Rightarrow> True)"

text \<open>
  Running a list of operations under this discipline. The result is \<open>None\<close> when an
  operation is not allowed where it stands or throws.
\<close>

fun run_ops :: "rooms \<Rightarrow> op list \<Rightarrow> rooms option" where
  "run_ops rs [] = Some rs"
| "run_ops rs (c # cs) =
     (if op_allowed rs c
      then (case apply_op rs c of Inl e \<Rightarrow> None | Inr rs' \<Rightarrow> run_ops rs' cs)
      else None)"

section \<open>The host of a room\<close>

text \<open>
  The host condition: exactly one member has \<open>isHost = true\<close>, and its \<open>id\<close> is the room's
  \<open>hostId\<close>.
\<close>

definition host_ok :: "room \<Rightarrow> bool" where
  "host_ok room = (map id_p (filter isHost (obj_values (players room))) = [hostId room])"

text \<open>
  The invariant that carries it through the operations: keys are not repeated, every
  player is stored under its own \<open>id\<close>, and the only entry with \<open>isHost = true\<close> is the one
  under the key \<open>hostId\<close>.
\<close>

definition players_wf :: "string \<Rightarrow> player obj \<Rightarrow> bool" where
  "players_wf h ps =
     (distinct (obj_keys ps) \<and> list_all (\<lambda>kv. id_p (snd kv) = fst kv) ps \<and>
      obj_keys (filter (\<lambda>kv. isHost (snd kv)) ps) = [h])"

definition room_wf :: "room \<Rightarrow> bool" where
  "room_wf room = players_wf (hostId room) (players room)"

section \<open>Dictionary lemmas\<close>

lemma map_of_obj_replace:
  "map_of (obj_replace ob k v) k' =
     (if k' = k \<and> map_of ob k \<noteq> None then Some v else map_of ob k')"
  by (induction ob k v rule: obj_replace.induct) auto

lemma map_of_obj_insert_index:
  "map_of ob k = None \<Longrightarrow>
   map_of (obj_insert_index ob n k v) k' = (if k' = k then Some v else map_of ob k')"
  by (induction ob n k v rule: obj_insert_index.induct) (auto split: option.splits)

lemma map_of_obj_set:
  "map_of (obj_set ob k v) k' = (if k' = k then Some v else map_of ob k')"
  by (auto simp: obj_set_def map_of_obj_replace map_of_obj_insert_index map_add_def
      split: option.splits)

lemma obj_get_obj_set:
  "obj_get (obj_set ob k v) k' = (if k' = k then Own v else obj_get ob k')"
  by (simp add: obj_get_def map_of_obj_set)

lemma obj_get_Own_iff: "obj_get ob k = Own v \<longleftrightarrow> map_of ob k = Some v"
  by (auto simp: obj_get_def split: option.splits)

lemma obj_replace_twice: "obj_replace (obj_replace ob k a) k b = obj_replace ob k b"
  by (induction ob k a rule: obj_replace.induct) auto

lemma obj_replace_insert_index:
  "map_of ob k = None \<Longrightarrow>
   obj_replace (obj_insert_index ob n k a) k b = obj_insert_index ob n k b"
  by (induction ob n k a rule: obj_insert_index.induct) (auto split: option.splits)

lemma obj_replace_append_new:
  "map_of ob k = None \<Longrightarrow> obj_replace (ob @ [(k, a)]) k b = ob @ [(k, b)]"
  by (induction ob) (auto split: if_splits)

lemma obj_set_twice: "obj_set (obj_set ob k a) k b = obj_set ob k b"
proof -
  have step: "obj_set (obj_set ob k a) k b = obj_replace (obj_set ob k a) k b"
    by (simp add: obj_set_def[of "obj_set ob k a"] map_of_obj_set)
  show ?thesis
  proof (cases "map_of ob k")
    case None
    with step show ?thesis
      by (simp add: obj_set_def[of ob] obj_replace_insert_index obj_replace_append_new
          split: option.splits)
  next
    case (Some v)
    with step show ?thesis
      by (simp add: obj_set_def[of ob] obj_replace_twice)
  qed
qed

section \<open>Creating a room\<close>

text \<open>
  Called with a settings object, \<^verbatim>\<open>createRoom\<close> does not throw: the room it reads back
  in \<^verbatim>\<open>addPlayerToRoom\<close> is the one it has just stored. The registry afterwards is the
  old one with the new room, holding the requester alone on team BLUE, assigned to the
  generated code.
\<close>

lemma createRoom_result:
  "createRoom rs rnd now h payload =
     Inr (obj_set rs (generateRoomId rnd)
            \<lparr>id_r = generateRoomId rnd, hostId = h,
             players = [(h, \<lparr>id_p = h, team = ''BLUE'', isBot = False, isHost = True,
                             name_p = None\<rparr>)],
             gameState = LOBBY,
             settings = \<lparr>maxPlayers = or_int (teamSize_in payload) 1 * 2,
                         teamSize = or_int (teamSize_in payload) 1,
                         map_s = or_string (map_in payload) ''orbital''\<rparr>,
             createdAt = now\<rparr>, generateRoomId rnd)"
  by (simp add: createRoom_def addPlayerToRoom_def obj_get_obj_set addPlayer_def count_team_def
      obj_values_def Let_def obj_set_twice)
     (simp add: obj_set_def split: option.splits)

lemma generateRoomId_example: "generateRoomId ''0.ab12xyz'' = ''AB12''"
  by (simp add: generateRoomId_def toUpperCase_char_def)

lemma array_index_AB12: "array_index ''AB12'' = None"
  by (simp add: array_index_def is_digit_def dec_value_def)

text \<open>
  Claim C6 (amended). \<^verbatim>\<open>createRoom\<close> does not validate \<open>teamSize\<close>: for every
  registry, requester and settings payload that supplies a \<open>teamSize\<close> less than \<open>1\<close>, the
  call does not fail. It returns the generated code, and the registry then holds under that
  code a room whose host and only member is the requester. A supplied \<open>teamSize\<close> of \<open>0\<close>
  is replaced by \<open>1\<close>; a negative one is stored as supplied; in both cases
  \<open>maxPlayers = 2 * teamSize\<close>.
\<close>

theorem createRoom_no_teamSize_validation:
  assumes "teamSize_in payload = Some n" and "n < 1"
  shows "(case createRoom rs rnd now h payload of
      Inl e \<Rightarrow> False
    | Inr (rs', roomId) \<Rightarrow>
        roomId = generateRoomId rnd \<and>
        (case getRoom rs' roomId of
           Own room \<Rightarrow>
             hostId room = h \<and> obj_keys (players room) = [h] \<and>
             teamSize (settings room) = (if n = 0 then 1 else n) \<and>
             maxPlayers (settings room) = 2 * teamSize (settings room)
         | _ \<Rightarrow> False))"
  using assms
  by (simp add: createRoom_result getRoom_def obj_get_obj_set obj_keys_def or_int_def)

theorem createRoom_no_teamSize_validation_witness:
  "teamSize_in \<lparr>teamSize_in = Some (- 1), map_in = None\<rparr> = Some (- 1) \<and> (- 1 :: int) < 1 \<and>
   (case createRoom [] ''0.ab12xyz'' 7 ''P1'' \<lparr>teamSize_in = Some (- 1), map_in = None\<rparr> of
      Inl e \<Rightarrow> False
    | Inr (rs', roomId) \<Rightarrow>
        roomId = ''AB12'' \<and>
        (case getRoom rs' roomId of
           Own room \<Rightarrow>
             hostId room = ''P1'' \<and> obj_keys (players room) = [''P1''] \<and>
             teamSize (settings room) = - 1 \<and>
             maxPlayers (settings room) = - 2
         | _ \<Rightarrow> False))"
proof -
  have a: "teamSize_in \<lparr>teamSize_in = Some (- 1), map_in = None\<rparr> = Some (- 1)"
    by simp
  have b: "(- 1 :: int) < 1"
    by simp
  show ?thesis
    using a b createRoom_no_teamSize_validation
      [OF a b, where rs = "[]" and rnd = "''0.ab12xyz''" and now = 7 and h = "''P1''"]
    by (simp add: generateRoomId_example split: sum.splits prod.splits lookup.splits)
qed

text \<open>
  Claim C6 as stated fails: with \<open>teamSize = -1\<close> the call returns a code and the room
  exists, with \<open>teamSize = -1\<close> and \<open>maxPlayers = -2\<close>.
\<close>

theorem createRoom_negative_teamSize_counterexample:
  "createRoom [] ''0.ab12xyz'' 7 ''P1'' \<lparr>teamSize_in = Some (- 1), map_in = None\<rparr> =
     Inr ([(''AB12'',
            \<lparr>id_r = ''AB12'', hostId = ''P1'',
             players = [(''P1'', \<lparr>id_p = ''P1'', team = ''BLUE'', isBot = False,
                                  isHost = True, name_p = None\<rparr>)],
             gameState = LOBBY,
             settings = \<lparr>maxPlayers = - 2, teamSize = - 1, map_s = ''orbital''\<rparr>,
             createdAt = 7\<rparr>)], ''AB12'')"
  by (simp add: createRoom_result generateRoomId_example obj_set_def array_index_AB12
      or_int_def or_string_def)

lemma length_obj_insert_index: "length (obj_insert_index ob n k v) = Suc (length ob)"
  by (induction ob n k v rule: obj_insert_index.induct) (auto split: option.splits)

lemma length_obj_set_new: "map_of ob k = None \<Longrightarrow> length (obj_set ob k v) = Suc (length ob)"
  by (simp add: obj_set_def length_obj_insert_index split: option.splits)

lemma length_generateRoomId: "length (generateRoomId rnd) = min 4 (length rnd - 2)"
  by (simp add: generateRoomId_def)

text \<open>
  Claim C1 (amended). \<^verbatim>\<open>createRoom\<close> stores the new room under the generated code,
  the upper-cased characters 2 to 5 of the random base-36 string (four characters when
  that string has at least six), without looking the code up among the active rooms. When
  the code is not the id of an active room, the registry gains one room, every room that
  existed is still there unchanged, and the new room has the requester as host and only
  member.
\<close>

theorem createRoom_fresh_code_keeps_rooms:
  assumes "generateRoomId rnd \<notin> set (obj_keys rs)"
  shows "(case createRoom rs rnd now h payload of
      Inl e \<Rightarrow> False
    | Inr (rs', roomId) \<Rightarrow>
        roomId = generateRoomId rnd \<and> length roomId = min 4 (length rnd - 2) \<and>
        length (obj_keys rs') = Suc (length (obj_keys rs)) \<and>
        (\<forall>rid room. getRoom rs rid = Own room \<longrightarrow> getRoom rs' rid = Own room) \<and>
        (case getRoom rs' roomId of
           Own room \<Rightarrow> hostId room = h \<and> obj_keys (players room) = [h]
         | _ \<Rightarrow> False))"
proof -
  from assms have fresh: "map_of rs (generateRoomId rnd) = None"
    by (simp add: obj_keys_def map_of_eq_None_iff)
  then have "\<And>rid room. getRoom rs rid = Own room \<Longrightarrow> rid \<noteq> generateRoomId rnd"
    by (auto simp: getRoom_def obj_get_Own_iff)
  with fresh show ?thesis
    by (auto simp: createRoom_result getRoom_def obj_get_obj_set obj_keys_def
        length_obj_set_new length_generateRoomId)
qed

lemma generateRoomId_example2: "generateRoomId ''0.zz9qabc'' = ''ZZ9Q''"
  by (simp add: generateRoomId_def toUpperCase_char_def)

lemma array_index_ZZ9Q: "array_index ''ZZ9Q'' = None"
  by (simp add: array_index_def is_digit_def dec_value_def)

theorem createRoom_fresh_code_keeps_rooms_witness:
  "generateRoomId ''0.zz9qabc'' \<notin> set (obj_keys [(''AB12'', room_of_P1)]) \<and>
   (case createRoom [(''AB12'', room_of_P1)] ''0.zz9qabc'' 8 ''P2''
           \<lparr>teamSize_in = None, map_in = None\<rparr> of
      Inl e \<Rightarrow> False
    | Inr (rs', roomId) \<Rightarrow>
        roomId = ''ZZ9Q'' \<and> length (obj_keys rs') = 2 \<and>
        getRoom rs' ''AB12'' = Own room_of_P1)"
proof -
  have fresh: "generateRoomId ''0.zz9qabc'' \<notin> set (obj_keys [(''AB12'', room_of_P1)])"
    by (simp add: generateRoomId_example2 obj_keys_def)
  have old: "getRoom [(''AB12'', room_of_P1)] ''AB12'' = Own room_of_P1"
    by (simp add: getRoom_def obj_get_def)
  show ?thesis
    using fresh old createRoom_fresh_code_keeps_rooms [OF fresh, where now = 8 and h = "''P2''"
      and payload = "\<lparr>teamSize_in = None, map_in = None\<rparr>"]
    by (auto simp: generateRoomId_example2 obj_keys_def split: sum.splits prod.splits)
qed

text \<open>
  Claim C1 as stated fails: no code is regenerated on a collision. When the generator
  gives \<open>AB12\<close> twice, the second \<^verbatim>\<open>createRoom\<close> replaces the room of \<open>P1\<close> by the
  room of \<open>P2\<close>.
\<close>

theorem createRoom_collision_counterexample:
  "createRoom [] ''0.ab12xyz'' 7 ''P1'' \<lparr>teamSize_in = None, map_in = None\<rparr> =
     Inr ([(''AB12'', room_of_P1)], ''AB12'') \<and>
   createRoom [(''AB12'', room_of_P1)] ''0.ab12xyz'' 8 ''P2''
       \<lparr>teamSize_in = None, map_in = None\<rparr> =
     Inr ([(''AB12'',
            \<lparr>id_r = ''AB12'', hostId = ''P2'',
             players = [(''P2'', \<lparr>id_p = ''P2'', team = ''BLUE'', isBot = False,
                                  isHost = True, name_p = None\<rparr>)],
             gameState = LOBBY,
             settings = \<lparr>maxPlayers = 2, teamSize = 1, map_s = ''orbital''\<rparr>,
             createdAt = 8\<rparr>)], ''AB12'')"
  by (simp add: createRoom_result generateRoomId_example obj_set_def array_index_AB12
      or_int_def or_string_def room_of_P1_def)

text \<open>
  Claim C9 (amended). For a payload whose \<open>teamSize\<close> is missing or at least \<open>1\<close>, the
  settings read back through \<^verbatim>\<open>getRoom\<close> after \<^verbatim>\<open>createRoom\<close> are: \<open>teamSize\<close> as
  supplied, or \<open>1\<close> when missing; \<open>maxPlayers = 2 * teamSize\<close>; \<open>map\<close> as supplied when
  it is a non-empty string, and \<open>orbital\<close> when it is missing or the empty string.
\<close>

theorem createRoom_getRoom_settings:
  assumes "case teamSize_in payload of None \<Rightarrow> True | Some n \<Rightarrow> 1 \<le> n"
  shows "(case createRoom rs rnd now h payload of
      Inl e \<Rightarrow> False
    | Inr (rs', roomId) \<Rightarrow>
        (case getRoom rs' roomId of
           Own room \<Rightarrow>
             settings room =
               \<lparr>maxPlayers = 2 * (case teamSize_in payload of None \<Rightarrow> 1 | Some n \<Rightarrow> n),
                teamSize = (case teamSize_in payload of None \<Rightarrow> 1 | Some n \<Rightarrow> n),
                map_s = (case map_in payload of
                           None \<Rightarrow> ''orbital''
                         | Some m \<Rightarrow> if m = [] then ''orbital'' else m)\<rparr>
         | _ \<Rightarrow> False))"
  using assms
  by (auto simp: createRoom_result getRoom_def obj_get_obj_set or_int_def or_string_def
      split: option.splits)

theorem createRoom_getRoom_settings_witness:
  "(case teamSize_in \<lparr>teamSize_in = Some 3, map_in = Some ''arena''\<rparr> of
      None \<Rightarrow> True | Some n \<Rightarrow> 1 \<le> n) \<and>
   (case createRoom [] ''0.ab12xyz'' 7 ''P1'' \<lparr>teamSize_in = Some 3, map_in = Some ''arena''\<rparr> of
      Inl e \<Rightarrow> False
    | Inr (rs', roomId) \<Rightarrow>
        (case getRoom rs' roomId of
           Own room \<Rightarrow>
             settings room = \<lparr>maxPlayers = 6, teamSize = 3, map_s = ''arena''\<rparr>
         | _ \<Rightarrow> False))"
proof -
  have h: "case teamSize_in \<lparr>teamSize_in = Some 3, map_in = Some ''arena''\<rparr> of
      None \<Rightarrow> True | Some n \<Rightarrow> 1 \<le> n"
    by simp
  show ?thesis
    using h createRoom_getRoom_settings [OF h, where rs = "[]" and rnd = "''0.ab12xyz''"
      and now = 7 and h = "''P1''"]
    by (simp split: sum.splits prod.splits lookup.splits)
qed

text \<open>
  Claim C9 as stated fails for a supplied empty map name: \<^verbatim>\<open>settings.map || "orbital"\<close>
  replaces it by the default, so the stored map is not the supplied value.
\<close>

theorem createRoom_empty_map_counterexample:
  "createRoom [] ''0.ab12xyz'' 7 ''P1'' \<lparr>teamSize_in = Some 1, map_in = Some ''''\<rparr> =
     Inr ([(''AB12'', room_of_P1)], ''AB12'') \<and>
   getRoom [(''AB12'', room_of_P1)] ''AB12'' = Own room_of_P1 \<and>
   map_s (settings room_of_P1) = ''orbital'' \<and> map_s (settings room_of_P1) \<noteq> []"
  by (simp add: createRoom_result generateRoomId_example obj_set_def array_index_AB12
      or_int_def or_string_def room_of_P1_def getRoom_def obj_get_def)

section \<open>Joining a room\<close>

text \<open>
  The outcomes of \<^verbatim>\<open>joinRoom\<close> in the order in which the source tests them. A room id
  that is no own key of the registry is reported as not found, unless it names a member
  that the registry object inherits from \<^verbatim>\<open>Object.prototype\<close>.
\<close>

lemma joinRoom_outcomes:
  "joinRoom rs roomId playerId =
     (case map_of rs roomId of
        None \<Rightarrow>
          Inr (rs, Inl (if roomId \<in> set prototype_keys then ''Game already started''
                        else ''Room not found''))
      | Some room \<Rightarrow>
          if gameState room \<noteq> LOBBY then Inr (rs, Inl ''Game already started'')
          else if maxPlayers (settings room) \<le> int (length (players room))
          then Inr (rs, Inl ''Room full'')
          else Inr (obj_set rs roomId (addPlayer room playerId False),
                    Inr (addPlayer room playerId False)))"
  by (simp add: joinRoom_def obj_get_def addPlayerToRoom_def obj_keys_def split: option.splits)

lemma array_index_P: "array_index (CHR ''P'' # k) = None"
  by (simp add: array_index_def is_digit_def)

text \<open>
  Claim C3, the failing input. No active room has the id \<open>constructor\<close>, yet
  \<^verbatim>\<open>this.rooms["constructor"]\<close> is the inherited, truthy \<^verbatim>\<open>Object\<close> function, whose
  \<^verbatim>\<open>gameState\<close> is \<^verbatim>\<open>undefined\<close>: the error is \<open>Game already started\<close>, not
  \<open>Room not found\<close>.
\<close>

theorem joinRoom_inherited_key_not_found:
  "map_of [(''AB12'', room_of_P1)] ''constructor'' = None \<and>
   joinRoom [(''AB12'', room_of_P1)] ''constructor'' ''P2'' =
     Inr ([(''AB12'', room_of_P1)], Inl ''Game already started'')"
  by (simp add: joinRoom_outcomes prototype_keys_def)

text \<open>
  Claim C2, the failing input. \<open>P1\<close> creates a room and then joins it by its code: the room
  is a lobby with one member out of two, so the join succeeds and overwrites the entry of
  \<open>P1\<close> with a non-host entry. The room then has one member, \<open>hostId = P1\<close>, and no member
  with \<open>isHost = true\<close>.
\<close>

theorem joinRoom_host_rejoin_no_host:
  "createRoom [] ''0.ab12xyz'' 7 ''P1'' \<lparr>teamSize_in = None, map_in = None\<rparr> =
     Inr ([(''AB12'', room_of_P1)], ''AB12'') \<and>
   joinRoom [(''AB12'', room_of_P1)] ''AB12'' ''P1'' =
     Inr ([(''AB12'', room_of_P1_rejoined)], Inr room_of_P1_rejoined) \<and>
   hostId room_of_P1_rejoined = ''P1'' \<and>
   obj_keys (players room_of_P1_rejoined) = [''P1''] \<and>
   filter isHost (obj_values (players room_of_P1_rejoined)) = []"
proof -
  have "createRoom [] ''0.ab12xyz'' 7 ''P1'' \<lparr>teamSize_in = None, map_in = None\<rparr> =
     Inr ([(''AB12'', room_of_P1)], ''AB12'')"
    by (simp add: createRoom_result generateRoomId_example obj_set_def array_index_AB12
        or_int_def or_string_def room_of_P1_def)
  moreover have "addPlayer room_of_P1 ''P1'' False = room_of_P1_rejoined"
    by (simp add: addPlayer_def count_team_def obj_values_def obj_set_def room_of_P1_def
        room_of_P1_rejoined_def)
  then have "joinRoom [(''AB12'', room_of_P1)] ''AB12'' ''P1'' =
     Inr ([(''AB12'', room_of_P1_rejoined)], Inr room_of_P1_rejoined)"
    by (simp add: joinRoom_outcomes obj_set_def) (simp add: room_of_P1_def)
  moreover have "hostId room_of_P1_rejoined = ''P1'' \<and>
      obj_keys (players room_of_P1_rejoined) = [''P1''] \<and>
      filter isHost (obj_values (players room_of_P1_rejoined)) = []"
    by (simp add: room_of_P1_rejoined_def room_of_P1_def obj_keys_def obj_values_def)
  ultimately show ?thesis by simp
qed

text \<open>
  The two parts of claim C2 about leaving hold: when the host leaves and members remain,
  the first remaining key becomes \<open>hostId\<close> and that member's \<open>isHost\<close> is set; when the last
  member leaves, the room is deleted from the registry.
\<close>

lemma leaveRoom_host_promotes_first_remaining:
  assumes "getRoom rs roomId = Own room" and "hostId room = playerId"
    and "obj_keys (obj_delete (players room) playerId) = nextPlayerId # others"
  shows "leaveRoom rs roomId playerId =
     Inr (obj_set rs roomId
            (room\<lparr>hostId := nextPlayerId,
                  players := set_isHost (obj_delete (players room) playerId) nextPlayerId True\<rparr>),
          Some nextPlayerId)"
  using assms by (simp add: leaveRoom_def getRoom_def Let_def)

lemma leaveRoom_last_member_removes_room:
  assumes "getRoom rs roomId = Own room" and "obj_keys (obj_delete (players room) playerId) = []"
  shows "leaveRoom rs roomId playerId = Inr (obj_delete rs roomId, None) \<and>
         map_of (obj_delete rs roomId) roomId = None"
  using assms
  by (auto simp: leaveRoom_def getRoom_def Let_def obj_delete_def map_of_eq_None_iff)

section \<open>Host-only messages\<close>

text \<open>
  Claim C7. When the sender is a member of a room (the room that \<^verbatim>\<open>getPlayerRoom\<close> finds
  for it) and is not that room's \<open>hostId\<close>, the handlers of \<^verbatim>\<open>update_room_settings\<close>,
  \<^verbatim>\<open>round_state\<close> and \<^verbatim>\<open>player_hit\<close> return the registry unchanged and emit nothing:
  no broadcast and no message to the sender.
\<close>

theorem non_host_messages_dropped:
  assumes "getPlayerRoom rs sender = Some room" and "hostId room \<noteq> sender"
  shows "on_update_room_settings rs sender payload = Inr (rs, []) \<and>
         on_round_state rs sender d1 = (rs, []) \<and>
         on_player_hit rs sender d2 = (rs, [])"
  using assms
  by (simp add: on_update_room_settings_def on_round_state_def on_player_hit_def)

theorem non_host_messages_dropped_witness:
  "getPlayerRoom [(''AB12'', lobby_of_three)] ''P2'' = Some lobby_of_three \<and>
   hostId lobby_of_three \<noteq> ''P2'' \<and>
   on_update_room_settings [(''AB12'', lobby_of_three)] ''P2''
       \<lparr>teamSize_in = Some 1, map_in = Some ''arena''\<rparr> =
     (Inr ([(''AB12'', lobby_of_three)], [])
        :: js_error + (rooms \<times> (target \<times> nat message) list)) \<and>
   on_round_state [(''AB12'', lobby_of_three)] ''P2'' (1::nat) =
     ([(''AB12'', lobby_of_three)], []) \<and>
   on_player_hit [(''AB12'', lobby_of_three)] ''P2'' (2::nat) =
     ([(''AB12'', lobby_of_three)], [])"
proof -
  have a: "getPlayerRoom [(''AB12'', lobby_of_three)] ''P2'' = Some lobby_of_three"
    by (simp add: getPlayerRoom_def has_player_def obj_values_def lobby_of_three_def)
  have b: "hostId lobby_of_three \<noteq> ''P2''"
    by (simp add: lobby_of_three_def)
  show ?thesis
    using a b non_host_messages_dropped [OF a b,
        where payload = "\<lparr>teamSize_in = Some 1, map_in = Some ''arena''\<rparr>"
          and ?d1.0 = "1::nat" and ?d2.0 = "2::nat"]
    by simp
qed

section \<open>Team assignment on create and join\<close>

text \<open>
  Claim C8. The requester of \<^verbatim>\<open>createRoom\<close> enters an empty room and is put on team
  BLUE. A player added by a successful \<^verbatim>\<open>joinRoom\<close> is a non-host and is put on the team
  that had strictly fewer members when the call was made, and on BLUE when both teams had
  the same size.
\<close>

theorem added_player_joins_smaller_team:
  "(case createRoom rs rnd now h payload of
      Inl e \<Rightarrow> False
    | Inr (rs', roomId) \<Rightarrow>
        (case getRoom rs' roomId of
           Own room' \<Rightarrow>
             (case map_of (players room') h of
                Some p \<Rightarrow> team p = ''BLUE'' \<and> isHost p
              | None \<Rightarrow> False)
         | _ \<Rightarrow> False)) \<and>
   (\<forall>room rs' room'.
      getRoom rs roomId = Own room \<and> joinRoom rs roomId playerId = Inr (rs', Inr room') \<longrightarrow>
      getRoom rs' roomId = Own room' \<and>
      (case map_of (players room') playerId of
         Some p \<Rightarrow>
           \<not> isHost p \<and>
           (count_team ''RED'' (players room) < count_team ''BLUE'' (players room)
              \<longrightarrow> team p = ''RED'') \<and>
           (count_team ''BLUE'' (players room) < count_team ''RED'' (players room)
              \<longrightarrow> team p = ''BLUE'') \<and>
           (count_team ''BLUE'' (players room) = count_team ''RED'' (players room)
              \<longrightarrow> team p = ''BLUE'')
       | None \<Rightarrow> False))"
proof -
  have create: "(case createRoom rs rnd now h payload of
      Inl e \<Rightarrow> False
    | Inr (rs', roomId) \<Rightarrow>
        (case getRoom rs' roomId of
           Own room' \<Rightarrow>
             (case map_of (players room') h of
                Some p \<Rightarrow> team p = ''BLUE'' \<and> isHost p
              | None \<Rightarrow> False)
         | _ \<Rightarrow> False))"
    by (simp add: createRoom_result getRoom_def obj_get_obj_set)
  have join: "getRoom rs' roomId = Own room' \<and>
      (case map_of (players room') playerId of
         Some p \<Rightarrow>
           \<not> isHost p \<and>
           (count_team ''RED'' (players room) < count_team ''BLUE'' (players room)
              \<longrightarrow> team p = ''RED'') \<and>
           (count_team ''BLUE'' (players room) < count_team ''RED'' (players room)
              \<longrightarrow> team p = ''BLUE'') \<and>
           (count_team ''BLUE'' (players room) = count_team ''RED'' (players room)
              \<longrightarrow> team p = ''BLUE'')
       | None \<Rightarrow> False)"
    if "getRoom rs roomId = Own room" and "joinRoom rs roomId playerId = Inr (rs', Inr room')"
    for room rs' room'
  proof -
    from that(1) have m: "map_of rs roomId = Some room"
      by (simp add: getRoom_def obj_get_Own_iff)
    from that(2) m have rs': "rs' = obj_set rs roomId (addPlayer room playerId False)"
      and room': "room' = addPlayer room playerId False"
      by (auto simp: joinRoom_outcomes split: if_splits)
    show ?thesis
      by (simp add: rs' room' getRoom_def obj_get_obj_set addPlayer_def Let_def map_of_obj_set)
  qed
  from create join show ?thesis by blast
qed

lemma join_P2_example:
  "joinRoom [(''AB12'', room_of_P1)] ''AB12'' ''P2'' =
     Inr ([(''AB12'', room_of_P1_P2)], Inr room_of_P1_P2)"
proof -
  have "addPlayer room_of_P1 ''P2'' False = room_of_P1_P2"
    by (simp add: addPlayer_def count_team_def obj_values_def obj_set_def room_of_P1_def
        room_of_P1_P2_def array_index_P)
  then show ?thesis
    by (simp add: joinRoom_outcomes obj_set_def) (simp add: room_of_P1_def)
qed

theorem added_player_joins_smaller_team_witness:
  "getRoom [(''AB12'', room_of_P1)] ''AB12'' = Own room_of_P1 \<and>
   joinRoom [(''AB12'', room_of_P1)] ''AB12'' ''P2'' =
     Inr ([(''AB12'', room_of_P1_P2)], Inr room_of_P1_P2) \<and>
   count_team ''RED'' (players room_of_P1) < count_team ''BLUE'' (players room_of_P1) \<and>
   getRoom [(''AB12'', room_of_P1_P2)] ''AB12'' = Own room_of_P1_P2 \<and>
   (case map_of (players room_of_P1_P2) ''P2'' of
      Some p \<Rightarrow> \<not> isHost p \<and> team p = ''RED''
    | None \<Rightarrow> False)"
proof -
  have a: "getRoom [(''AB12'', room_of_P1)] ''AB12'' = Own room_of_P1"
    by (simp add: getRoom_def obj_get_def)
  have c: "count_team ''RED'' (players room_of_P1) < count_team ''BLUE'' (players room_of_P1)"
    by (simp add: count_team_def obj_values_def room_of_P1_def)
  from added_player_joins_smaller_team
    [where rs = "[(''AB12'', room_of_P1)]" and roomId = "''AB12''" and playerId = "''P2''"]
  have "getRoom [(''AB12'', room_of_P1_P2)] ''AB12'' = Own room_of_P1_P2 \<and>
      (case map_of (players room_of_P1_P2) ''P2'' of
         Some p \<Rightarrow>
           \<not> isHost p \<and>
           (count_team ''RED'' (players room_of_P1) < count_team ''BLUE'' (players room_of_P1)
              \<longrightarrow> team p = ''RED'') \<and>
           (count_team ''BLUE'' (players room_of_P1) < count_team ''RED'' (players room_of_P1)
              \<longrightarrow> team p = ''BLUE'') \<and>
           (count_team ''BLUE'' (players room_of_P1) = count_team ''RED'' (players room_of_P1)
              \<longrightarrow> team p = ''BLUE'')
       | None \<Rightarrow> False)"
    using a join_P2_example by blast
  with a c join_P2_example show ?thesis
    by (auto split: option.splits)
qed

section \<open>Updating the settings\<close>

lemma obj_keys_obj_replace: "obj_keys (obj_replace ob k v) = obj_keys ob"
  by (induction ob k v rule: obj_replace.induct) (auto simp: obj_keys_def)

lemma obj_keys_obj_set_existing:
  "map_of ob k = Some v' \<Longrightarrow> obj_keys (obj_set ob k v) = obj_keys ob"
  by (simp add: obj_set_def obj_keys_obj_replace)

lemma forget_team_set_team: "forget_team (set_team ps k t) = forget_team ps"
  by (induction ps) (auto simp: forget_team_def set_team_def)

lemma forget_team_rebalance_blue:
  "forget_team (snd (snd (rebalance_blue ts blue red ps))) = forget_team ps"
proof (induction ts blue red ps rule: rebalance_blue.induct)
  case (1 ts blue red ps)
  then show ?case
    by (subst rebalance_blue.simps) (auto simp: forget_team_set_team)
qed

lemma forget_team_rebalance_red:
  "forget_team (snd (snd (rebalance_red ts blue red ps))) = forget_team ps"
proof (induction ts blue red ps rule: rebalance_red.induct)
  case (1 ts blue red ps)
  then show ?case
    by (subst rebalance_red.simps) (auto simp: forget_team_set_team)
qed

lemma rebalanceTeams_frame:
  "forget_team (players (rebalanceTeams room)) = forget_team (players room) \<and>
   id_r (rebalanceTeams room) = id_r room \<and> hostId (rebalanceTeams room) = hostId room \<and>
   gameState (rebalanceTeams room) = gameState room \<and>
   settings (rebalanceTeams room) = settings room \<and>
   createdAt (rebalanceTeams room) = createdAt room"
proof -
  obtain b1 r1 p1 where s1: "rebalance_blue (teamSize (settings room))
      (team_keys ''BLUE'' (players room)) (team_keys ''RED'' (players room)) (players room)
      = (b1, r1, p1)"
    by (metis prod_cases3)
  obtain b2 r2 p2 where s2: "rebalance_red (teamSize (settings room)) b1 r1 p1 = (b2, r2, p2)"
    by (metis prod_cases3)
  have "forget_team p1 = forget_team (players room)"
    using forget_team_rebalance_blue [of "teamSize (settings room)"
        "team_keys ''BLUE'' (players room)" "team_keys ''RED'' (players room)" "players room"]
    by (simp add: s1)
  moreover have "forget_team p2 = forget_team p1"
    using forget_team_rebalance_red [of "teamSize (settings room)" b1 r1 p1] by (simp add: s2)
  ultimately show ?thesis
    by (simp add: rebalanceTeams_def Let_def s1 s2)
qed

lemma forget_team_keys: "forget_team ps = forget_team qs \<Longrightarrow> obj_keys ps = obj_keys qs"
proof -
  have "obj_keys ps = map fst (forget_team ps)" for ps :: "player obj"
    by (induction ps) (auto simp: forget_team_def obj_keys_def)
  then show "forget_team ps = forget_team qs \<Longrightarrow> obj_keys ps = obj_keys qs"
    by metis
qed

text \<open>
  Claim C10. For a room of the registry and any payload, \<^verbatim>\<open>updateSettings\<close> returns
  the updated room and changes nothing but that room's settings and the team of some of
  its players: the registry has the same room ids in the same order, every other id reads
  as before, and the room has the same member ids in the same order, the same \<open>id\<close>,
  \<open>isBot\<close>, \<open>isHost\<close> and \<open>name\<close> for every member, and the same \<open>hostId\<close>, game state,
  \<open>id\<close> and creation time. No player is removed, whatever the new team size.
\<close>

theorem updateSettings_frame:
  assumes "getRoom rs roomId = Own room"
  shows "(case updateSettings rs roomId payload of
      Inl e \<Rightarrow> False
    | Inr (rs', res) \<Rightarrow>
        obj_keys rs' = obj_keys rs \<and>
        (\<forall>rid. rid \<noteq> roomId \<longrightarrow> getRoom rs' rid = getRoom rs rid) \<and>
        (case getRoom rs' roomId of
           Own room' \<Rightarrow>
             res = Some room' \<and>
             obj_keys (players room') = obj_keys (players room) \<and>
             forget_team (players room') = forget_team (players room) \<and>
             hostId room' = hostId room \<and> gameState room' = gameState room \<and>
             id_r room' = id_r room \<and> createdAt room' = createdAt room
         | _ \<Rightarrow> False))"
proof -
  from assms have m: "map_of rs roomId = Some room"
    by (simp add: getRoom_def obj_get_Own_iff)
  define room1 where "room1 = room\<lparr>settings := (settings room)
      \<lparr>map_s := or_string (map_in payload) (map_s (settings room)),
       teamSize := or_int (parseInt (teamSize_in payload)) (teamSize (settings room)),
       maxPlayers := or_int (parseInt (teamSize_in payload)) (teamSize (settings room)) * 2\<rparr>\<rparr>"
  have u: "updateSettings rs roomId payload =
      Inr (obj_set rs roomId (rebalanceTeams room1), Some (rebalanceTeams room1))"
    using assms by (simp add: updateSettings_def getRoom_def Let_def room1_def)
  have f: "forget_team (players (rebalanceTeams room1)) = forget_team (players room)"
    using rebalanceTeams_frame [of room1] by (simp add: room1_def)
  have g: "id_r (rebalanceTeams room1) = id_r room" "hostId (rebalanceTeams room1) = hostId room"
    "gameState (rebalanceTeams room1) = gameState room"
    "createdAt (rebalanceTeams room1) = createdAt room"
    using rebalanceTeams_frame [of room1] by (simp_all add: room1_def)
  show ?thesis
    using m f g forget_team_keys [OF f]
    by (simp add: u getRoom_def obj_get_obj_set obj_keys_obj_set_existing)
qed

theorem updateSettings_frame_witness:
  "getRoom [(''AB12'', lobby_of_three)] ''AB12'' = Own lobby_of_three \<and>
   (case updateSettings [(''AB12'', lobby_of_three)] ''AB12''
           \<lparr>teamSize_in = Some 1, map_in = None\<rparr> of
      Inl e \<Rightarrow> False
    | Inr (rs', res) \<Rightarrow>
        obj_keys rs' = [''AB12''] \<and>
        (case getRoom rs' ''AB12'' of
           Own room' \<Rightarrow>
             res = Some room' \<and>
             obj_keys (players room') = [''P1'', ''P2'', ''P3''] \<and>
             forget_team (players room') = forget_team (players lobby_of_three) \<and>
             hostId room' = ''P1'' \<and> gameState room' = LOBBY \<and>
             id_r room' = ''AB12'' \<and> createdAt room' = 7
         | _ \<Rightarrow> False))"
proof -
  have a: "getRoom [(''AB12'', lobby_of_three)] ''AB12'' = Own lobby_of_three"
    by (simp add: getRoom_def obj_get_def)
  show ?thesis
    using a updateSettings_frame [OF a, where payload = "\<lparr>teamSize_in = Some 1, map_in = None\<rparr>"]
    by (auto simp: obj_keys_def lobby_of_three_def split: sum.splits prod.splits lookup.splits)
qed

section \<open>Team capacity\<close>


























text \<open>
  Shrinking the team size of the BLUE-heavy lobby from \<open>3\<close> to \<open>2\<close>: the first loop pops
  \<open>P3\<close>, the last BLUE player, and moves it to RED.
\<close>

lemma lobby_blue_heavy_shrunk:
  "updateSettings [(''AB12'', lobby_blue_heavy)] ''AB12'' \<lparr>teamSize_in = Some 2, map_in = None\<rparr> =
     Inr ([(''AB12'', lobby_blue_heavy
              \<lparr>players := set_team (players lobby_blue_heavy) ''P3'' ''RED'',
               settings := \<lparr>maxPlayers = 4, teamSize = 2, map_s = ''orbital''\<rparr>\<rparr>)],
          Some (lobby_blue_heavy
              \<lparr>players := set_team (players lobby_blue_heavy) ''P3'' ''RED'',
               settings := \<lparr>maxPlayers = 4, teamSize = 2, map_s = ''orbital''\<rparr>\<rparr>))"
  by (simp add: updateSettings_def obj_get_def lobby_blue_heavy_def or_int_def or_string_def
      parseInt_def rebalanceTeams_def team_keys_def rebalance_blue.simps rebalance_red.simps
      obj_set_def Let_def)



section \<open>One room per player\<close>


lemma filter_values_obj_replace_le:
  "length (filter Q (obj_values (obj_replace ob k v)))
     \<le> length (filter Q (obj_values ob)) + (if Q v then 1 else 0)"
  by (induction ob k v rule: obj_replace.induct) (auto simp: obj_values_def)

lemma filter_values_obj_insert_index:
  "length (filter Q (obj_values (obj_insert_index ob n k v)))
     = length (filter Q (obj_values ob)) + (if Q v then 1 else 0)"
  by (induction ob n k v rule: obj_insert_index.induct)
     (auto simp: obj_values_def split: option.splits)

lemma filter_values_obj_set_le:
  "length (filter Q (obj_values (obj_set ob k v)))
     \<le> length (filter Q (obj_values ob)) + (if Q v then 1 else 0)"
  using filter_values_obj_replace_le [of Q ob k v]
  by (auto simp: obj_set_def filter_values_obj_insert_index split: option.splits)
     (auto simp: obj_values_def)

lemma filter_values_obj_replace_mono:
  "map_of ob k = Some v0 \<Longrightarrow> (Q v \<longrightarrow> Q v0) \<Longrightarrow>
   length (filter Q (obj_values (obj_replace ob k v))) \<le> length (filter Q (obj_values ob))"
  by (induction ob k v rule: obj_replace.induct) (auto simp: obj_values_def split: if_splits)

lemma filter_values_obj_set_mono:
  "map_of ob k = Some v0 \<Longrightarrow> (Q v \<longrightarrow> Q v0) \<Longrightarrow>
   length (filter Q (obj_values (obj_set ob k v))) \<le> length (filter Q (obj_values ob))"
  by (simp add: obj_set_def filter_values_obj_replace_mono)

lemma filter_values_obj_delete_le:
  "length (filter Q (obj_values (obj_delete ob k))) \<le> length (filter Q (obj_values ob))"
  by (induction ob) (auto simp: obj_values_def obj_delete_def)

lemma getPlayerRoom_None_iff: "getPlayerRoom rs p = None \<longleftrightarrow> rooms_of rs p = []"
  by (auto simp: getPlayerRoom_def rooms_of_def find_None_iff filter_empty_conv)

lemma has_player_addPlayer:
  "has_player (addPlayer room playerId b) p \<longleftrightarrow> p = playerId \<or> has_player room p"
  by (simp add: has_player_def addPlayer_def Let_def map_of_obj_set)

lemma createRoom_rooms_of:
  assumes "createRoom rs rnd now h payload = Inr (rs', roomId)"
    and "getPlayerRoom rs h = None"
    and "length (rooms_of rs p) \<le> 1"
  shows "length (rooms_of rs' p) \<le> 1"
proof -
  let ?new = "\<lparr>id_r = generateRoomId rnd, hostId = h,
             players = [(h, \<lparr>id_p = h, team = ''BLUE'', isBot = False, isHost = True,
                             name_p = None\<rparr>)],
             gameState = LOBBY,
             settings = \<lparr>maxPlayers = or_int (teamSize_in payload) 1 * 2,
                         teamSize = or_int (teamSize_in payload) 1,
                         map_s = or_string (map_in payload) ''orbital''\<rparr>,
             createdAt = now\<rparr>"
  from assms(1) have rs': "rs' = obj_set rs (generateRoomId rnd) ?new"
    by (auto simp: createRoom_result)
  have new: "has_player ?new p \<longleftrightarrow> p = h"
    by (simp add: has_player_def)
  have le: "length (rooms_of rs' p) \<le> length (rooms_of rs p) + (if p = h then 1 else 0)"
    using filter_values_obj_set_le [of "\<lambda>r. has_player r p" rs "generateRoomId rnd" ?new]
    unfolding new by (simp only: rs' rooms_of_def)
  show ?thesis
  proof (cases "p = h")
    case True
    with assms(2) have "rooms_of rs p = []" by (simp add: getPlayerRoom_None_iff)
    with le True show ?thesis by simp
  next
    case False
    with le assms(3) show ?thesis by simp
  qed
qed

lemma joinRoom_rooms_of:
  assumes "joinRoom rs roomId playerId = Inr (rs', res)"
    and "getPlayerRoom rs playerId = None"
    and "length (rooms_of rs p) \<le> 1"
  shows "length (rooms_of rs' p) \<le> 1"
proof (cases "rs' = rs")
  case True
  with assms(3) show ?thesis by simp
next
  case False
  with assms(1) obtain room where m: "map_of rs roomId = Some room"
    and rs': "rs' = obj_set rs roomId (addPlayer room playerId False)"
    by (auto simp: joinRoom_outcomes split: option.splits if_splits)
  show ?thesis
  proof (cases "p = playerId")
    case True
    with assms(2) have "rooms_of rs p = []" by (simp add: getPlayerRoom_None_iff)
    with filter_values_obj_set_le [of "\<lambda>r. has_player r p" rs roomId
        "addPlayer room playerId False"]
    show ?thesis by (simp add: rs' rooms_of_def split: if_splits)
  next
    case False
    then have "has_player (addPlayer room playerId False) p \<longrightarrow> has_player room p"
      by (simp add: has_player_addPlayer)
    from filter_values_obj_set_mono [OF m, of "\<lambda>r. has_player r p", OF this] assms(3)
    show ?thesis by (simp add: rs' rooms_of_def)
  qed
qed

lemma has_player_keys: "has_player r p \<longleftrightarrow> p \<in> set (obj_keys (players r))"
  by (simp add: has_player_def obj_keys_def map_of_eq_None_iff)

lemma map_of_obj_delete: "map_of (obj_delete ob k) k' = (if k' = k then None else map_of ob k')"
  by (induction ob) (auto simp: obj_delete_def)

lemma obj_keys_set_isHost: "obj_keys (set_isHost ps k b) = obj_keys ps"
  by (induction ps) (auto simp: set_isHost_def obj_keys_def)

lemma obj_keys_obj_delete: "set (obj_keys (obj_delete ob k)) = set (obj_keys ob) - {k}"
  by (auto simp: obj_delete_def obj_keys_def)

lemma leaveRoom_rooms_of:
  assumes "leaveRoom rs roomId playerId = Inr (rs', res)"
  shows "length (rooms_of rs' p) \<le> length (rooms_of rs p)"
proof (cases "obj_get rs roomId")
  case Undefined
  with assms show ?thesis by (simp add: leaveRoom_def)
next
  case Inherited
  with assms show ?thesis by (simp add: leaveRoom_def)
next
  case (Own room)
  then have m: "map_of rs roomId = Some room" by (simp add: obj_get_Own_iff)
  let ?ps = "obj_delete (players room) playerId"
  show ?thesis
  proof (cases "obj_keys ?ps")
    case Nil
    with assms Own have "rs' = obj_delete rs roomId"
      by (simp add: leaveRoom_def Let_def)
    then show ?thesis
      by (simp add: rooms_of_def filter_values_obj_delete_le)
  next
    case (Cons nextPlayerId others)
    have sub: "has_player (room\<lparr>hostId := x, players := set_isHost ?ps nextPlayerId True\<rparr>) p
        \<longrightarrow> has_player room p"
      "has_player (room\<lparr>players := ?ps\<rparr>) p \<longrightarrow> has_player room p" for x
      by (simp_all add: has_player_keys obj_keys_set_isHost obj_keys_obj_delete)
    from assms Own Cons
    have "rs' = obj_set rs roomId
            (room\<lparr>hostId := nextPlayerId, players := set_isHost ?ps nextPlayerId True\<rparr>)
        \<or> rs' = obj_set rs roomId (room\<lparr>players := ?ps\<rparr>)"
      by (auto simp: leaveRoom_def Let_def split: if_splits)
    with filter_values_obj_set_mono [OF m, of "\<lambda>r. has_player r p", OF sub(1)]
      filter_values_obj_set_mono [OF m, of "\<lambda>r. has_player r p", OF sub(2)]
    show ?thesis by (auto simp: rooms_of_def)
  qed
qed

lemma switchTeam_rooms_of:
  assumes "switchTeam rs roomId playerId targetTeam = Inr (rs', res)"
  shows "length (rooms_of rs' p) \<le> length (rooms_of rs p)"
proof (cases "rs' = rs")
  case True
  then show ?thesis by simp
next
  case False
  with assms obtain room player t where m: "map_of rs roomId = Some room"
    and pl: "map_of (players room) playerId = Some player"
    and rs': "rs' = obj_set rs roomId
        (room\<lparr>players := obj_set (players room) playerId (player\<lparr>team := t\<rparr>)\<rparr>)"
    by (auto simp: switchTeam_def Let_def obj_get_def split: option.splits if_splits)
  have "has_player (room\<lparr>players := obj_set (players room) playerId (player\<lparr>team := t\<rparr>)\<rparr>) p
      \<longrightarrow> has_player room p"
    using pl by (simp add: has_player_keys obj_keys_obj_set_existing)
  from filter_values_obj_set_mono [OF m, of "\<lambda>r. has_player r p", OF this]
  show ?thesis by (simp add: rs' rooms_of_def)
qed

lemma updateSettings_rooms_of:
  assumes "updateSettings rs roomId payload = Inr (rs', res)"
  shows "length (rooms_of rs' p) \<le> length (rooms_of rs p)"
proof (cases "obj_get rs roomId")
  case Undefined
  with assms show ?thesis by (simp add: updateSettings_def)
next
  case Inherited
  with assms show ?thesis by (simp add: updateSettings_def)
next
  case (Own room)
  then have m: "map_of rs roomId = Some room" by (simp add: obj_get_Own_iff)
  define room1 where "room1 = room\<lparr>settings := (settings room)
      \<lparr>map_s := or_string (map_in payload) (map_s (settings room)),
       teamSize := or_int (parseInt (teamSize_in payload)) (teamSize (settings room)),
       maxPlayers := or_int (parseInt (teamSize_in payload)) (teamSize (settings room)) * 2\<rparr>\<rparr>"
  from assms Own have rs': "rs' = obj_set rs roomId (rebalanceTeams room1)"
    by (auto simp: updateSettings_def Let_def room1_def)
  have "forget_team (players (rebalanceTeams room1)) = forget_team (players room)"
    using rebalanceTeams_frame [of room1] by (simp add: room1_def)
  then have "obj_keys (players (rebalanceTeams room1)) = obj_keys (players room)"
    by (rule forget_team_keys)
  then have "has_player (rebalanceTeams room1) p \<longrightarrow> has_player room p"
    by (simp add: has_player_keys)
  from filter_values_obj_set_mono [OF m, of "\<lambda>r. has_player r p", OF this]
  show ?thesis by (simp add: rs' rooms_of_def)
qed

lemma apply_op_rooms_of:
  assumes "op_allowed rs c" and "apply_op rs c = Inr rs'" and "length (rooms_of rs p) \<le> 1"
  shows "length (rooms_of rs' p) \<le> 1"
proof (cases c)
  case (CreateRoom rnd now h payload)
  with assms createRoom_rooms_of [of rs rnd now h payload rs' _ p] show ?thesis
    by (fastforce simp: apply_op_def op_allowed_def split: sum.splits)
next
  case (JoinRoom roomId playerId)
  with assms joinRoom_rooms_of [of rs roomId playerId rs' _ p] show ?thesis
    by (fastforce simp: apply_op_def op_allowed_def split: sum.splits)
next
  case (LeaveRoom roomId playerId)
  with assms leaveRoom_rooms_of [of rs roomId playerId rs' _ p] show ?thesis
    by (fastforce simp: apply_op_def split: sum.splits)
next
  case (SwitchTeam roomId playerId targetTeam)
  with assms switchTeam_rooms_of [of rs roomId playerId targetTeam rs' _ p] show ?thesis
    by (fastforce simp: apply_op_def split: sum.splits)
next
  case (UpdateSettings roomId payload)
  with assms updateSettings_rooms_of [of rs roomId payload rs' _ p] show ?thesis
    by (fastforce simp: apply_op_def split: sum.splits)
qed

lemma run_ops_rooms_of:
  "run_ops rs cs = Some rs' \<Longrightarrow> length (rooms_of rs p) \<le> 1 \<Longrightarrow>
   length (rooms_of rs' p) \<le> 1"
proof (induction cs arbitrary: rs)
  case Nil
  then show ?case by simp
next
  case (Cons c cs)
  from Cons.prems(1) obtain rs1 where a: "op_allowed rs c" and b: "apply_op rs c = Inr rs1"
    and r: "run_ops rs1 cs = Some rs'"
    by (auto split: if_splits sum.splits)
  from apply_op_rooms_of [OF a b Cons.prems(2)] have "length (rooms_of rs1 p) \<le> 1" .
  with Cons.IH [OF r] show ?case .
qed

text \<open>
  Claim C5 (amended). In every registry state reached from the empty registry by a sequence
  of \<^verbatim>\<open>createRoom\<close>, \<^verbatim>\<open>joinRoom\<close>, \<^verbatim>\<open>leaveRoom\<close>, \<^verbatim>\<open>switchTeam\<close> and
  \<^verbatim>\<open>updateSettings\<close> calls in which every \<^verbatim>\<open>createRoom\<close> and \<^verbatim>\<open>joinRoom\<close> is made for
  a player who is a member of no room at that moment, every player is a member of at most
  one room. \<^verbatim>\<open>RoomManager\<close> itself does not enforce that discipline.
\<close>

theorem one_room_per_player_under_discipline:
  assumes "run_ops [] cs = Some rs"
  shows "length (rooms_of rs playerId) \<le> 1"
  using run_ops_rooms_of [OF assms, of playerId] by (simp add: rooms_of_def obj_values_def)

lemma create_P1_example:
  "createRoom [] ''0.ab12xyz'' 7 ''P1'' \<lparr>teamSize_in = None, map_in = None\<rparr> =
     Inr ([(''AB12'', room_of_P1)], ''AB12'')"
  by (simp add: createRoom_result generateRoomId_example obj_set_def array_index_AB12
      or_int_def or_string_def room_of_P1_def)

theorem one_room_per_player_under_discipline_witness:
  "run_ops [] [CreateRoom ''0.ab12xyz'' 7 ''P1'' \<lparr>teamSize_in = None, map_in = None\<rparr>,
               JoinRoom ''AB12'' ''P2''] = Some [(''AB12'', room_of_P1_P2)] \<and>
   length (rooms_of [(''AB12'', room_of_P1_P2)] ''P2'') \<le> 1"
proof -
  have g1: "getPlayerRoom [] ''P1'' = None"
    by (simp add: getPlayerRoom_def obj_values_def)
  have g2: "getPlayerRoom [(''AB12'', room_of_P1)] ''P2'' = None"
    by (simp add: getPlayerRoom_def obj_values_def has_player_def room_of_P1_def)
  have r: "run_ops [] [CreateRoom ''0.ab12xyz'' 7 ''P1'' \<lparr>teamSize_in = None, map_in = None\<rparr>,
               JoinRoom ''AB12'' ''P2''] = Some [(''AB12'', room_of_P1_P2)]"
    by (simp add: op_allowed_def apply_op_def g1 g2 create_P1_example join_P2_example)
  from r one_room_per_player_under_discipline [OF r, of "''P2''"] show ?thesis
    by simp
qed

text \<open>
  Claim C5 as stated fails. \<open>P1\<close> creates room \<open>AB12\<close> and \<open>P2\<close> creates room \<open>ZZ9Q\<close>; then
  \<open>P1\<close> joins \<open>ZZ9Q\<close>, or creates a further room: in both cases \<open>P1\<close> is afterwards a member
  of two rooms of the registry.
\<close>

theorem player_in_two_rooms_counterexample:
  "createRoom [] ''0.ab12xyz'' 7 ''P1'' \<lparr>teamSize_in = None, map_in = None\<rparr> =
     Inr ([(''AB12'', room_of_P1)], ''AB12'') \<and>
   createRoom [(''AB12'', room_of_P1)] ''0.zz9qabc'' 8 ''P2''
       \<lparr>teamSize_in = None, map_in = None\<rparr> =
     Inr ([(''AB12'', room_of_P1), (''ZZ9Q'', room_ZZ9Q_of_P2)], ''ZZ9Q'') \<and>
   joinRoom [(''AB12'', room_of_P1), (''ZZ9Q'', room_ZZ9Q_of_P2)] ''ZZ9Q'' ''P1'' =
     Inr ([(''AB12'', room_of_P1), (''ZZ9Q'', room_ZZ9Q_of_P2_P1)], Inr room_ZZ9Q_of_P2_P1) \<and>
   rooms_of [(''AB12'', room_of_P1), (''ZZ9Q'', room_ZZ9Q_of_P2_P1)] ''P1'' =
     [room_of_P1, room_ZZ9Q_of_P2_P1] \<and>
   createRoom [(''AB12'', room_of_P1)] ''0.zz9qabc'' 8 ''P1''
       \<lparr>teamSize_in = None, map_in = None\<rparr> =
     Inr ([(''AB12'', room_of_P1),
           (''ZZ9Q'', room_of_P1\<lparr>id_r := ''ZZ9Q'', createdAt := 8\<rparr>)], ''ZZ9Q'') \<and>
   rooms_of [(''AB12'', room_of_P1),
             (''ZZ9Q'', room_of_P1\<lparr>id_r := ''ZZ9Q'', createdAt := 8\<rparr>)] ''P1'' =
     [room_of_P1, room_of_P1\<lparr>id_r := ''ZZ9Q'', createdAt := 8\<rparr>]"
proof -
  have c2: "createRoom [(''AB12'', room_of_P1)] ''0.zz9qabc'' 8 ''P2''
       \<lparr>teamSize_in = None, map_in = None\<rparr> =
     Inr ([(''AB12'', room_of_P1), (''ZZ9Q'', room_ZZ9Q_of_P2)], ''ZZ9Q'')"
    by (simp add: createRoom_result generateRoomId_example2 obj_set_def array_index_ZZ9Q
        or_int_def or_string_def room_ZZ9Q_of_P2_def)
  have "addPlayer room_ZZ9Q_of_P2 ''P1'' False = room_ZZ9Q_of_P2_P1"
    by (simp add: addPlayer_def count_team_def obj_values_def obj_set_def room_ZZ9Q_of_P2_def
        room_ZZ9Q_of_P2_P1_def array_index_P)
  then have j: "joinRoom [(''AB12'', room_of_P1), (''ZZ9Q'', room_ZZ9Q_of_P2)] ''ZZ9Q'' ''P1'' =
     Inr ([(''AB12'', room_of_P1), (''ZZ9Q'', room_ZZ9Q_of_P2_P1)], Inr room_ZZ9Q_of_P2_P1)"
    by (simp add: joinRoom_outcomes obj_set_def) (simp add: room_ZZ9Q_of_P2_def)
  have m1: "rooms_of [(''AB12'', room_of_P1), (''ZZ9Q'', room_ZZ9Q_of_P2_P1)] ''P1'' =
     [room_of_P1, room_ZZ9Q_of_P2_P1]"
    by (simp add: rooms_of_def obj_values_def has_player_def room_of_P1_def
        room_ZZ9Q_of_P2_P1_def room_ZZ9Q_of_P2_def)
  have c3: "createRoom [(''AB12'', room_of_P1)] ''0.zz9qabc'' 8 ''P1''
       \<lparr>teamSize_in = None, map_in = None\<rparr> =
     Inr ([(''AB12'', room_of_P1),
           (''ZZ9Q'', room_of_P1\<lparr>id_r := ''ZZ9Q'', createdAt := 8\<rparr>)], ''ZZ9Q'')"
    by (simp add: createRoom_result generateRoomId_example2 obj_set_def array_index_ZZ9Q
        or_int_def or_string_def room_of_P1_def)
  have m2: "rooms_of [(''AB12'', room_of_P1),
             (''ZZ9Q'', room_of_P1\<lparr>id_r := ''ZZ9Q'', createdAt := 8\<rparr>)] ''P1'' =
     [room_of_P1, room_of_P1\<lparr>id_r := ''ZZ9Q'', createdAt := 8\<rparr>]"
    by (simp add: rooms_of_def obj_values_def has_player_def room_of_P1_def)
  from create_P1_example c2 j m1 c3 m2 show ?thesis by simp
qed

section \<open>The host invariant under the one-room discipline\<close>


lemma room_wf_host_ok: "room_wf room \<Longrightarrow> host_ok room"
proof -
  have "list_all (\<lambda>kv. id_p (snd kv) = fst kv) ps \<Longrightarrow>
      map id_p (filter isHost (obj_values ps)) = obj_keys (filter (\<lambda>kv. isHost (snd kv)) ps)"
    for ps :: "player obj"
    by (induction ps) (auto simp: obj_values_def obj_keys_def)
  then show "room_wf room \<Longrightarrow> host_ok room"
    by (simp add: room_wf_def players_wf_def host_ok_def)
qed

lemma set_obj_replace: "set (obj_values (obj_replace ob k v)) \<subseteq> insert v (set (obj_values ob))"
  by (induction ob k v rule: obj_replace.induct) (auto simp: obj_values_def)

lemma set_obj_insert_index: "set (obj_insert_index ob n k v) = insert (k, v) (set ob)"
  by (induction ob n k v rule: obj_insert_index.induct) (auto split: option.splits)

lemma set_values_obj_set: "set (obj_values (obj_set ob k v)) \<subseteq> insert v (set (obj_values ob))"
  using set_obj_replace [of ob k v]
  by (auto simp: obj_set_def set_obj_insert_index obj_values_def split: option.splits)

lemma list_all_values_obj_set:
  "list_all Q (obj_values ob) \<Longrightarrow> Q v \<Longrightarrow> list_all Q (obj_values (obj_set ob k v))"
  using set_values_obj_set [of ob k v] by (auto simp: list_all_iff)

lemma list_all_values_obj_delete:
  "list_all Q (obj_values ob) \<Longrightarrow> list_all Q (obj_values (obj_delete ob k))"
  by (auto simp: list_all_iff obj_values_def obj_delete_def)

lemma map_of_in_values: "map_of ob k = Some v \<Longrightarrow> v \<in> set (obj_values ob)"
  by (auto simp: obj_values_def dest: map_of_SomeD intro: rev_image_eqI)

text \<open>Adding a player under a new key.\<close>

lemma distinct_obj_insert_index:
  "distinct (obj_keys (obj_insert_index ob n k v)) \<longleftrightarrow>
     k \<notin> set (obj_keys ob) \<and> distinct (obj_keys ob)"
proof -
  have s: "set (obj_keys (obj_insert_index ob n k v)) = insert k (set (obj_keys ob))" for ob
    by (simp add: obj_keys_def set_obj_insert_index)
  show ?thesis
    using s
    by (induction ob n k v rule: obj_insert_index.induct)
       (auto simp: obj_keys_def split: option.splits)
qed

lemma hosts_obj_insert_index:
  "\<not> Q v \<Longrightarrow> filter (\<lambda>kv. Q (snd kv)) (obj_insert_index ob n k v) =
     filter (\<lambda>kv. Q (snd kv)) ob"
  by (induction ob n k v rule: obj_insert_index.induct) (auto split: option.splits)

lemma players_wf_add_new:
  assumes "players_wf h ps" and "map_of ps k = None" and "id_p p = k" and "\<not> isHost p"
  shows "players_wf h (obj_set ps k p)"
proof -
  from assms(2) have k: "k \<notin> set (obj_keys ps)"
    by (simp add: obj_keys_def map_of_eq_None_iff)
  show ?thesis
  proof (cases "array_index k")
    case None
    with assms k show ?thesis
      by (simp add: obj_set_def players_wf_def obj_keys_def)
  next
    case (Some n)
    with assms k show ?thesis
      by (simp add: obj_set_def players_wf_def distinct_obj_insert_index hosts_obj_insert_index
          list_all_iff set_obj_insert_index)
  qed
qed

lemma addPlayer_room_wf:
  assumes "room_wf room" and "\<not> has_player room playerId"
  shows "room_wf (addPlayer room playerId False)"
  using assms
  by (simp add: room_wf_def addPlayer_def Let_def has_player_def players_wf_add_new)

text \<open>Equality up to teams keeps the invariant.\<close>

lemma players_wf_forget_team:
  assumes "forget_team ps = forget_team qs"
  shows "players_wf h ps \<longleftrightarrow> players_wf h qs"
proof -
  have a: "obj_keys ps = obj_keys (forget_team ps)" for ps
    by (induction ps) (auto simp: forget_team_def obj_keys_def)
  have b: "list_all (\<lambda>kv. id_p (snd kv) = fst kv) ps \<longleftrightarrow>
      list_all (\<lambda>kv. id_p (snd kv) = fst kv) (forget_team ps)" for ps
    by (induction ps) (auto simp: forget_team_def)
  have c: "obj_keys (filter (\<lambda>kv. isHost (snd kv)) ps) =
      obj_keys (filter (\<lambda>kv. isHost (snd kv)) (forget_team ps))" for ps
    by (induction ps) (auto simp: forget_team_def obj_keys_def)
  show ?thesis
    unfolding players_wf_def a [of ps] a [of qs] b [of ps] b [of qs] c [of ps] c [of qs]
    by (simp add: assms)
qed

lemma forget_team_obj_replace:
  "map_of ps k = Some p \<Longrightarrow> forget_team (obj_replace ps k (p\<lparr>team := t\<rparr>)) = forget_team ps"
  by (induction ps k "p\<lparr>team := t\<rparr>" rule: obj_replace.induct)
     (auto simp: forget_team_def split: if_splits)

text \<open>Removing a player, and promoting the first remaining one.\<close>

lemma hosts_obj_delete:
  "obj_keys (filter (\<lambda>kv. isHost (snd kv)) (obj_delete ps k)) =
     filter (\<lambda>k'. k' \<noteq> k) (obj_keys (filter (\<lambda>kv. isHost (snd kv)) ps))"
  by (induction ps) (auto simp: obj_delete_def obj_keys_def)

lemma players_wf_delete_member:
  assumes "players_wf h ps" and "h \<noteq> k"
  shows "players_wf h (obj_delete ps k)"
  using assms
  by (simp add: players_wf_def hosts_obj_delete)
     (simp add: obj_delete_def obj_keys_def distinct_map_filter list_all_iff)

lemma hosts_set_isHost_first:
  assumes "filter (\<lambda>kv. isHost (snd kv)) ps = []" and "distinct (obj_keys ps)"
    and "obj_keys ps = k # ks"
  shows "obj_keys (filter (\<lambda>kv. isHost (snd kv)) (set_isHost ps k True)) = [k]"
proof -
  from assms(3) obtain p rest where ps: "ps = (k, p) # rest" and ks: "ks = obj_keys rest"
    by (cases ps) (auto simp: obj_keys_def)
  from assms(2) ps have "k \<notin> fst ` set rest" by (simp add: obj_keys_def)
  then have "set_isHost rest k True = rest"
    by (induction rest) (auto simp: set_isHost_def)
  then have "set_isHost ps k True = (k, p\<lparr>isHost := True\<rparr>) # rest"
    by (simp add: ps set_isHost_def)
  with assms(1) ps show ?thesis
    by (auto simp: obj_keys_def split: if_splits)
qed

lemma list_all_id_set_isHost:
  "list_all (\<lambda>kv. id_p (snd kv) = fst kv) (set_isHost ps k b) \<longleftrightarrow>
   list_all (\<lambda>kv. id_p (snd kv) = fst kv) ps"
  by (induction ps) (auto simp: set_isHost_def split: if_splits)

lemma players_wf_delete_host:
  assumes "players_wf h ps" and "obj_keys (obj_delete ps h) = k # ks"
  shows "players_wf k (set_isHost (obj_delete ps h) k True)"
proof -
  let ?ps = "obj_delete ps h"
  from assms(1) have d: "distinct (obj_keys ?ps)"
    and i: "list_all (\<lambda>kv. id_p (snd kv) = fst kv) ?ps"
    by (simp_all add: players_wf_def obj_delete_def obj_keys_def distinct_map_filter list_all_iff)
  from assms(1) have "obj_keys (filter (\<lambda>kv. isHost (snd kv)) ?ps) = []"
    by (simp add: players_wf_def hosts_obj_delete)
  then have e: "filter (\<lambda>kv. isHost (snd kv)) ?ps = []"
    by (simp add: obj_keys_def)
  from hosts_set_isHost_first [OF e d assms(2)] d i show ?thesis
    by (simp add: players_wf_def obj_keys_set_isHost list_all_id_set_isHost)
qed


text \<open>Each operation keeps the invariant in every room of the registry.\<close>

lemma createRoom_rooms_wf:
  assumes "createRoom rs rnd now h payload = Inr (rs', roomId)"
    and "list_all room_wf (obj_values rs)"
  shows "list_all room_wf (obj_values rs')"
proof -
  let ?new = "\<lparr>id_r = generateRoomId rnd, hostId = h,
             players = [(h, \<lparr>id_p = h, team = ''BLUE'', isBot = False, isHost = True,
                             name_p = None\<rparr>)],
             gameState = LOBBY,
             settings = \<lparr>maxPlayers = or_int (teamSize_in payload) 1 * 2,
                         teamSize = or_int (teamSize_in payload) 1,
                         map_s = or_string (map_in payload) ''orbital''\<rparr>,
             createdAt = now\<rparr>"
  from assms(1) have rs': "rs' = obj_set rs (generateRoomId rnd) ?new"
    by (auto simp: createRoom_result)
  have "room_wf ?new"
    by (simp add: room_wf_def players_wf_def obj_keys_def)
  with assms(2) show ?thesis
    unfolding rs' by (rule list_all_values_obj_set)
qed

lemma joinRoom_rooms_wf:
  assumes "joinRoom rs roomId playerId = Inr (rs', res)"
    and "getPlayerRoom rs playerId = None"
    and "list_all room_wf (obj_values rs)"
  shows "list_all room_wf (obj_values rs')"
proof (cases "rs' = rs")
  case True
  with assms(3) show ?thesis by simp
next
  case False
  with assms(1) obtain room where m: "map_of rs roomId = Some room"
    and rs': "rs' = obj_set rs roomId (addPlayer room playerId False)"
    by (auto simp: joinRoom_outcomes split: option.splits if_splits)
  from m have mem: "room \<in> set (obj_values rs)" by (rule map_of_in_values)
  with assms(3) have wf: "room_wf room" by (simp add: list_all_iff)
  from assms(2) mem have "\<not> has_player room playerId"
    by (auto simp: getPlayerRoom_None_iff rooms_of_def filter_empty_conv)
  with wf have "room_wf (addPlayer room playerId False)" by (rule addPlayer_room_wf)
  with assms(3) show ?thesis
    unfolding rs' by (rule list_all_values_obj_set)
qed

lemma leaveRoom_rooms_wf:
  assumes "leaveRoom rs roomId playerId = Inr (rs', res)"
    and "list_all room_wf (obj_values rs)"
  shows "list_all room_wf (obj_values rs')"
proof (cases "obj_get rs roomId")
  case Undefined
  with assms show ?thesis by (simp add: leaveRoom_def)
next
  case Inherited
  with assms show ?thesis by (simp add: leaveRoom_def)
next
  case (Own room)
  then have "map_of rs roomId = Some room" by (simp add: obj_get_Own_iff)
  then have "room \<in> set (obj_values rs)" by (rule map_of_in_values)
  with assms(2) have wf: "players_wf (hostId room) (players room)"
    by (simp add: list_all_iff room_wf_def)
  let ?ps = "obj_delete (players room) playerId"
  show ?thesis
  proof (cases "obj_keys ?ps")
    case Nil
    with assms(1) Own have "rs' = obj_delete rs roomId"
      by (simp add: leaveRoom_def Let_def)
    with assms(2) show ?thesis
      by (simp add: list_all_values_obj_delete)
  next
    case (Cons nextPlayerId others)
    show ?thesis
    proof (cases "hostId room = playerId")
      case True
      with assms(1) Own Cons
      have rs': "rs' = obj_set rs roomId
          (room\<lparr>hostId := nextPlayerId, players := set_isHost ?ps nextPlayerId True\<rparr>)"
        by (auto simp: leaveRoom_def Let_def)
      from wf True Cons have "players_wf nextPlayerId (set_isHost ?ps nextPlayerId True)"
        by (intro players_wf_delete_host) simp_all
      then have "room_wf
          (room\<lparr>hostId := nextPlayerId, players := set_isHost ?ps nextPlayerId True\<rparr>)"
        by (simp add: room_wf_def)
      with assms(2) show ?thesis
        unfolding rs' by (rule list_all_values_obj_set)
    next
      case False
      with assms(1) Own Cons have rs': "rs' = obj_set rs roomId (room\<lparr>players := ?ps\<rparr>)"
        by (auto simp: leaveRoom_def Let_def)
      from wf False have "room_wf (room\<lparr>players := ?ps\<rparr>)"
        by (simp add: room_wf_def players_wf_delete_member)
      with assms(2) show ?thesis
        unfolding rs' by (rule list_all_values_obj_set)
    qed
  qed
qed

lemma switchTeam_rooms_wf:
  assumes "switchTeam rs roomId playerId targetTeam = Inr (rs', res)"
    and "list_all room_wf (obj_values rs)"
  shows "list_all room_wf (obj_values rs')"
proof (cases "rs' = rs")
  case True
  with assms(2) show ?thesis by simp
next
  case False
  with assms(1) obtain room player t where m: "map_of rs roomId = Some room"
    and pl: "map_of (players room) playerId = Some player"
    and rs': "rs' = obj_set rs roomId
        (room\<lparr>players := obj_set (players room) playerId (player\<lparr>team := t\<rparr>)\<rparr>)"
    by (auto simp: switchTeam_def Let_def obj_get_def split: option.splits if_splits)
  from m have "room \<in> set (obj_values rs)" by (rule map_of_in_values)
  with assms(2) have wf: "players_wf (hostId room) (players room)"
    by (simp add: list_all_iff room_wf_def)
  from pl have "forget_team (obj_set (players room) playerId (player\<lparr>team := t\<rparr>)) =
      forget_team (players room)"
    by (simp add: obj_set_def forget_team_obj_replace)
  from players_wf_forget_team [OF this] wf
  have "room_wf (room\<lparr>players := obj_set (players room) playerId (player\<lparr>team := t\<rparr>)\<rparr>)"
    by (simp add: room_wf_def)
  with assms(2) show ?thesis
    unfolding rs' by (rule list_all_values_obj_set)
qed

lemma updateSettings_rooms_wf:
  assumes "updateSettings rs roomId payload = Inr (rs', res)"
    and "list_all room_wf (obj_values rs)"
  shows "list_all room_wf (obj_values rs')"
proof (cases "obj_get rs roomId")
  case Undefined
  with assms show ?thesis by (simp add: updateSettings_def)
next
  case Inherited
  with assms show ?thesis by (simp add: updateSettings_def)
next
  case (Own room)
  then have "map_of rs roomId = Some room" by (simp add: obj_get_Own_iff)
  then have "room \<in> set (obj_values rs)" by (rule map_of_in_values)
  with assms(2) have wf: "players_wf (hostId room) (players room)"
    by (simp add: list_all_iff room_wf_def)
  define room1 where "room1 = room\<lparr>settings := (settings room)
      \<lparr>map_s := or_string (map_in payload) (map_s (settings room)),
       teamSize := or_int (parseInt (teamSize_in payload)) (teamSize (settings room)),
       maxPlayers := or_int (parseInt (teamSize_in payload)) (teamSize (settings room)) * 2\<rparr>\<rparr>"
  from assms(1) Own have rs': "rs' = obj_set rs roomId (rebalanceTeams room1)"
    by (auto simp: updateSettings_def Let_def room1_def)
  have f: "forget_team (players (rebalanceTeams room1)) = forget_team (players room)"
    and h: "hostId (rebalanceTeams room1) = hostId room"
    using rebalanceTeams_frame [of room1] by (simp_all add: room1_def)
  from players_wf_forget_team [OF f] wf h have "room_wf (rebalanceTeams room1)"
    by (simp add: room_wf_def)
  with assms(2) show ?thesis
    unfolding rs' by (rule list_all_values_obj_set)
qed

lemma apply_op_rooms_wf:
  assumes "op_allowed rs c" and "apply_op rs c = Inr rs'"
    and "list_all room_wf (obj_values rs)"
  shows "list_all room_wf (obj_values rs')"
proof (cases c)
  case (CreateRoom rnd now h payload)
  with assms createRoom_rooms_wf [of rs rnd now h payload rs'] show ?thesis
    by (fastforce simp: apply_op_def split: sum.splits)
next
  case (JoinRoom roomId playerId)
  with assms joinRoom_rooms_wf [of rs roomId playerId rs'] show ?thesis
    by (fastforce simp: apply_op_def op_allowed_def split: sum.splits)
next
  case (LeaveRoom roomId playerId)
  with assms leaveRoom_rooms_wf [of rs roomId playerId rs'] show ?thesis
    by (fastforce simp: apply_op_def split: sum.splits)
next
  case (SwitchTeam roomId playerId targetTeam)
  with assms switchTeam_rooms_wf [of rs roomId playerId targetTeam rs'] show ?thesis
    by (fastforce simp: apply_op_def split: sum.splits)
next
  case (UpdateSettings roomId payload)
  with assms updateSettings_rooms_wf [of rs roomId payload rs'] show ?thesis
    by (fastforce simp: apply_op_def split: sum.splits)
qed

lemma run_ops_rooms_wf:
  "run_ops rs cs = Some rs' \<Longrightarrow> list_all room_wf (obj_values rs) \<Longrightarrow>
   list_all room_wf (obj_values rs')"
proof (induction cs arbitrary: rs)
  case Nil
  then show ?case by simp
next
  case (Cons c cs)
  from Cons.prems(1) obtain rs1 where a: "op_allowed rs c" and b: "apply_op rs c = Inr rs1"
    and r: "run_ops rs1 cs = Some rs'"
    by (auto split: if_splits sum.splits)
  from apply_op_rooms_wf [OF a b Cons.prems(2)] have "list_all room_wf (obj_values rs1)" .
  with Cons.IH [OF r] show ?case .
qed

text \<open>
  Claim C2 holds for the registry states reached under the discipline of \<open>op_allowed\<close>, in
  which no player joins while it is a member of a room: every room of the registry then
  has exactly one member with \<open>isHost = true\<close>, whose \<open>id\<close> is \<open>hostId\<close>.
\<close>

lemma host_ok_under_discipline:
  assumes "run_ops [] cs = Some rs"
  shows "list_all host_ok (obj_values rs)"
proof -
  have "list_all room_wf (obj_values rs)"
    using run_ops_rooms_wf [OF assms] by (simp add: obj_values_def)
  then show ?thesis
    by (auto simp: list_all_iff intro: room_wf_host_ok)
qed

end
